theory Spec2Isabelle
  imports Complex_Main "HOL-Library.Word"
begin

section \<open>Data model of gitlab_async_tui_exporter.py\<close>

text \<open>
  The exporter is asynchronous Python. Each coroutine is modelled as a function that takes
  the state of the exporter object together with the part of the world it touches (the
  export archives under the export directory and a trace of the effects it performs) and
  returns its result with the new state. The log files and the directories are not part of
  the state, and writing to the local disk is taken to succeed. What the remote answers is an input of each function.
  Exceptions are values of type \<open>error\<close>. Console output and updates of the progress bar
  are left out; the calls of \<open>self.log\<close> appear in the trace.
\<close>

type_synonym byte = "8 word"

datatype error =
    ClientResponseError int   \<comment> \<open>aiohttp.ClientResponseError with its status\<close>
  | ClientError               \<comment> \<open>any other exception of a request or of reading its body\<close>
  | ValueError
  | UnboundLocalError

text \<open>A project is the dictionary the API returns; the code reads two of its keys.\<close>

record project =
  project_id :: int
  path_with_namespace :: string

record ExportStats =
  projects_exported :: int
  projects_failed :: int
  groups_exported :: int
  groups_failed :: int
  wikis_exported :: int
  snippets_exported :: int
  total_size :: int
  retries :: int

text \<open>
  \<open>ExportStats.success_rate\<close>. Python's true division gives a float; the model computes
  the exact rational value.
\<close>

definition success_rate :: "ExportStats \<Rightarrow> rat" where
  "success_rate s =
     (let total = projects_exported s + projects_failed s
      in if total > 0 then of_int (projects_exported s) / of_int total * 100 else 0)"

datatype semaphore = Download_semaphore | Api_semaphore

datatype request =
    Export_POST int              \<comment> \<open>POST /projects/id/export\<close>
  | Export_GET int               \<comment> \<open>GET /projects/id/export\<close>
  | Download_GET int "int option"  \<comment> \<open>GET /projects/id/export/download, Range: bytes=n-\<close>
  | Projects_GET int             \<comment> \<open>GET /projects?page=n\<close>
  | User_GET                     \<comment> \<open>GET /user\<close>
  | Version_GET                  \<comment> \<open>GET /version\<close>

datatype level = INFO | WARN | ERROR | SUCCESS

datatype message =
    Rate_limited_retrying rat
  | Max_retries_exceeded
  | Already_exported string
  | Access_forbidden_trigger string
  | Failed_to_start_export string int
  | Export_failed string
  | Export_timeout string
  | Exception_exporting string error
  | Access_forbidden_download string
  | Failed_to_download string int
  | Resumed_and_completed string
  | Downloaded string
  | Exception_downloading string error
  | Failed_to_fetch_page int int
  | Error_fetching_page int error
  | Connected
  | Authentication_failed int
  | Connection_failed error

datatype event =
    Acquire semaphore
  | Release semaphore
  | Request request
  | Sleep rat
  | Log level message

record exporter =
  export_dir :: string
  stats :: ExportStats
  failed_projects :: "project list"
  projects_count :: int
  files :: "string \<rightharpoonup> byte list"
  trace :: "event list"

definition emit :: "event \<Rightarrow> exporter \<Rightarrow> exporter" where
  "emit e st = st\<lparr>trace := trace st @ [e]\<rparr>"

definition inc_projects_exported :: "exporter \<Rightarrow> exporter" where
  "inc_projects_exported st =
     st\<lparr>stats := (stats st)\<lparr>projects_exported := projects_exported (stats st) + 1\<rparr>\<rparr>"

definition inc_projects_failed :: "exporter \<Rightarrow> exporter" where
  "inc_projects_failed st =
     st\<lparr>stats := (stats st)\<lparr>projects_failed := projects_failed (stats st) + 1\<rparr>\<rparr>"

definition inc_retries :: "exporter \<Rightarrow> exporter" where
  "inc_retries st = st\<lparr>stats := (stats st)\<lparr>retries := retries (stats st) + 1\<rparr>\<rparr>"

definition add_total_size :: "int \<Rightarrow> exporter \<Rightarrow> exporter" where
  "add_total_size n st = st\<lparr>stats := (stats st)\<lparr>total_size := total_size (stats st) + n\<rparr>\<rparr>"

definition append_failed :: "project \<Rightarrow> exporter \<Rightarrow> exporter" where
  "append_failed p st = st\<lparr>failed_projects := failed_projects st @ [p]\<rparr>"

text \<open>What a request gives: it raises, or it returns a response.\<close>

datatype 'r outcome = Raises error | Responds 'r

text \<open>
  A numeric header as \<open>int(...)\<close> reads it: absent, the empty string, a number, or text
  on which \<open>int\<close> raises ValueError.
\<close>

datatype header = Absent | Empty | Number int | Malformed

section \<open>async_retry_with_backoff\<close>

text \<open>
  The decorator's \<open>wrapper\<close>: \<open>f\<close> is the decorated coroutine with its arguments,
  \<open>x\<close> the retry counter of the loop, \<open>rnd x\<close> the value \<open>random.random()\<close> returns at
  retry \<open>x\<close>.
\<close>

function wrapper_loop ::
  "int \<Rightarrow> rat \<Rightarrow> (nat \<Rightarrow> rat) \<Rightarrow> (exporter \<Rightarrow> (error + 'a) \<times> exporter) \<Rightarrow> nat \<Rightarrow> exporter
     \<Rightarrow> (error + 'a) \<times> exporter" where
  "wrapper_loop n_retries backoff_in_seconds rnd f x st =
     (case f st of
        (Inr v, st1) \<Rightarrow> (Inr v, st1)
      | (Inl e, st1) \<Rightarrow>
          (case e of
             ClientResponseError status \<Rightarrow>
               if status = 429 then
                 if int x < n_retries then
                   (let sleep = backoff_in_seconds * 2 ^ x + rnd x;
                        st2 = emit (Log WARN (Rate_limited_retrying sleep)) st1;
                        st3 = inc_retries st2;
                        st4 = emit (Sleep sleep) st3
                    in wrapper_loop n_retries backoff_in_seconds rnd f (x + 1) st4)
                 else (Inl e, emit (Log ERROR Max_retries_exceeded) st1)
               else (Inl e, st1)
           | _ \<Rightarrow> (Inl e, st1)))"
  by pat_completeness auto
termination
  by (relation "measure (\<lambda>(n, b, r, f, x, st). nat (n - int x))") auto

declare wrapper_loop.simps [simp del]

text \<open>\<open>@async_retry_with_backoff()\<close>: retries=5, backoff_in_seconds=1.\<close>

definition async_retry_with_backoff ::
  "(nat \<Rightarrow> rat) \<Rightarrow> (exporter \<Rightarrow> (error + 'a) \<times> exporter) \<Rightarrow> exporter \<Rightarrow> (error + 'a) \<times> exporter" where
  "async_retry_with_backoff rnd f st = wrapper_loop 5 1 rnd f 0 st"

section \<open>download_export\<close>

record download_response =
  status :: int
  content_length :: header
  chunks :: "byte list list"   \<comment> \<open>what \<open>iter_chunked(8192)\<close> yields\<close>
  stream_breaks :: bool         \<comment> \<open>the iteration raises after these chunks\<close>

datatype file_mode = Mode_wb | Mode_ab

text \<open>Lines 321 to 328: the headers (the Range offset), the file mode, downloaded_size.\<close>

definition download_plan :: "exporter \<Rightarrow> string \<Rightarrow> int option \<times> file_mode \<times> int" where
  "download_plan st export_file =
     (case files st export_file of
        Some old \<Rightarrow> (Some (int (length old)), Mode_ab, int (length old))
      | None \<Rightarrow> (None, Mode_wb, 0))"

text \<open>\<open>open(export_file, file_mode)\<close> and the writes of the chunks.\<close>

definition write_chunks :: "string \<Rightarrow> file_mode \<Rightarrow> byte list list \<Rightarrow> exporter \<Rightarrow> exporter" where
  "write_chunks export_file mode cs st =
     (let old = (case mode of
                   Mode_wb \<Rightarrow> []
                 | Mode_ab \<Rightarrow> (case files st export_file of Some d \<Rightarrow> d | None \<Rightarrow> []))
      in st\<lparr>files := (files st)(export_file \<mapsto> old @ concat cs)\<rparr>)"

text \<open>
  The body of \<open>download_export\<close>. \<open>remote\<close> answers the download request from its Range
  offset. \<open>raise_for_status\<close> of aiohttp raises ClientResponseError for a status of 400 or
  more. Every exception is caught by the function's own handler, which returns False.
\<close>

definition download_export_body ::
  "(int option \<Rightarrow> download_response outcome) \<Rightarrow> int \<Rightarrow> string \<Rightarrow> string \<Rightarrow> exporter
     \<Rightarrow> (error + bool) \<times> exporter" where
  "download_export_body remote pid project_path export_file st =
     (case download_plan st export_file of (headers, mode, downloaded_size) \<Rightarrow>
      (let st1 = emit (Request (Download_GET pid headers)) st in
       case remote headers of
         Raises e \<Rightarrow> (Inr False, emit (Log ERROR (Exception_downloading project_path e)) st1)
       | Responds response \<Rightarrow>
           if status response \<ge> 400 then
             (Inr False, emit (Log ERROR (Exception_downloading project_path
                (ClientResponseError (status response)))) st1)
           else if status response = 403 then
             (Inr False, emit (Log ERROR (Access_forbidden_download project_path)) st1)
           else if status response \<notin> {200, 206} then
             (Inr False, emit (Log ERROR (Failed_to_download project_path (status response))) st1)
           else
             (case content_length response of
                Malformed \<Rightarrow>
                  (Inr False, emit (Log ERROR (Exception_downloading project_path ValueError)) st1)
              | Empty \<Rightarrow>
                  (Inr False, emit (Log ERROR (Exception_downloading project_path ValueError)) st1)
              | h \<Rightarrow>
                  (let total = (case h of Number n \<Rightarrow> n | _ \<Rightarrow> 0);
                       st2 = write_chunks export_file mode (chunks response) st1
                   in if stream_breaks response then
                        (Inr False, emit (Log ERROR (Exception_downloading project_path ClientError)) st2)
                      else
                        (let st3 = add_total_size total st2
                         in (Inr True,
                             emit (Log SUCCESS (if mode = Mode_ab then Resumed_and_completed project_path
                                                else Downloaded project_path)) st3))))))"

definition download_export ::
  "(nat \<Rightarrow> rat) \<Rightarrow> (int option \<Rightarrow> download_response outcome) \<Rightarrow> int \<Rightarrow> string \<Rightarrow> string \<Rightarrow> exporter
     \<Rightarrow> (error + bool) \<times> exporter" where
  "download_export rnd remote pid project_path export_file =
     async_retry_with_backoff rnd (download_export_body remote pid project_path export_file)"

section \<open>export_project\<close>

record poll_response =
  poll_status :: int
  export_status :: "string option"
    \<comment> \<open>\<open>export_data.get('export_status', '')\<close>; None when reading the JSON raises\<close>

text \<open>The remote as one export job sees it.\<close>

record job_remote =
  trigger :: "int outcome"                       \<comment> \<open>the status of the export POST\<close>
  polls :: "nat \<Rightarrow> poll_response outcome"        \<comment> \<open>the answer to poll number attempt\<close>
  download :: "int option \<Rightarrow> download_response outcome"

definition export_file_of :: "exporter \<Rightarrow> string \<Rightarrow> string" where
  "export_file_of st project_path =
     export_dir st @ ''/projects/'' @
       map (\<lambda>c. if c = CHR ''/'' then CHR ''_'' else c) project_path @ ''.tar.gz''"

text \<open>The handler \<open>except Exception\<close> of export_project (lines 307 to 313).\<close>

definition on_exception :: "project \<Rightarrow> error \<Rightarrow> exporter \<Rightarrow> bool \<times> exporter" where
  "on_exception p e st =
     (False, append_failed p (inc_projects_failed
        (emit (Log ERROR (Exception_exporting (path_with_namespace p) e)) st)))"

text \<open>A failure that the code logs, counts and records (lines 251-256, 259-264, 292-297, 300-305).\<close>

definition fail_with :: "project \<Rightarrow> message \<Rightarrow> exporter \<Rightarrow> bool \<times> exporter" where
  "fail_with p m st = (False, append_failed p (inc_projects_failed (emit (Log ERROR m) st)))"

text \<open>Lines 280 to 289: the status is finished, the export is downloaded.\<close>

definition finish_download :: "(nat \<Rightarrow> rat) \<Rightarrow> job_remote \<Rightarrow> project \<Rightarrow> string \<Rightarrow> exporter \<Rightarrow> bool \<times> exporter" where
  "finish_download rnd env p export_file st =
     (case download_export rnd (download env) (project_id p) (path_with_namespace p) export_file st of
        (Inl e, st1) \<Rightarrow> on_exception p e st1
      | (Inr success, st1) \<Rightarrow>
          (success, if success then inc_projects_exported st1 else inc_projects_failed st1))"

text \<open>The poll loop \<open>for attempt in range(max_attempts)\<close>, on the attempts still to run.\<close>

fun poll_loop ::
  "(nat \<Rightarrow> rat) \<Rightarrow> job_remote \<Rightarrow> project \<Rightarrow> string \<Rightarrow> nat list \<Rightarrow> exporter \<Rightarrow> bool \<times> exporter" where
  "poll_loop rnd env p export_file [] st =
     fail_with p (Export_timeout (path_with_namespace p)) st"
| "poll_loop rnd env p export_file (attempt # rest) st =
     (let st1 = emit (Sleep 5) st;
          st2 = emit (Request (Export_GET (project_id p))) st1
      in case polls env attempt of
           Raises e \<Rightarrow> on_exception p e st2
         | Responds response \<Rightarrow>
             if poll_status response \<noteq> 200 then poll_loop rnd env p export_file rest st2
             else
               (case export_status response of
                  None \<Rightarrow> on_exception p ClientError st2
                | Some s \<Rightarrow>
                    if s = ''finished'' then finish_download rnd env p export_file st2
                    else if s = ''failed'' then
                      fail_with p (Export_failed (path_with_namespace p)) st2
                    else poll_loop rnd env p export_file rest st2))"

definition max_attempts :: nat where
  "max_attempts = 120"

text \<open>The body of export_project inside \<open>async with semaphore\<close>.\<close>

definition export_project_try ::
  "(nat \<Rightarrow> rat) \<Rightarrow> job_remote \<Rightarrow> project \<Rightarrow> exporter \<Rightarrow> bool \<times> exporter" where
  "export_project_try rnd env p st =
     (let pid = project_id p;
          project_path = path_with_namespace p;
          export_file = export_file_of st project_path
      in if files st export_file \<noteq> None then
           (True, inc_projects_exported (emit (Log INFO (Already_exported project_path)) st))
         else
           (let st1 = emit (Request (Export_POST pid)) st
            in case trigger env of
                 Raises e \<Rightarrow> on_exception p e st1
               | Responds code \<Rightarrow>
                   if code \<ge> 400 then on_exception p (ClientResponseError code) st1
                   else if code = 403 then fail_with p (Access_forbidden_trigger project_path) st1
                   else if code \<notin> {200, 202} then
                     fail_with p (Failed_to_start_export project_path code) st1
                   else poll_loop rnd env p export_file [0..<max_attempts] st1))"

definition export_project_body ::
  "(nat \<Rightarrow> rat) \<Rightarrow> job_remote \<Rightarrow> project \<Rightarrow> semaphore \<Rightarrow> exporter \<Rightarrow> (error + bool) \<times> exporter" where
  "export_project_body rnd env p sem st =
     (case export_project_try rnd env p (emit (Acquire sem) st) of
        (r, st1) \<Rightarrow> (Inr r, emit (Release sem) st1))"

definition export_project ::
  "(nat \<Rightarrow> rat) \<Rightarrow> job_remote \<Rightarrow> project \<Rightarrow> semaphore \<Rightarrow> exporter \<Rightarrow> (error + bool) \<times> exporter" where
  "export_project rnd env p sem = async_retry_with_backoff rnd (export_project_body rnd env p sem)"


section \<open>get_all_projects\<close>

record page_response =
  page_status :: int
  page_projects :: "project list option"   \<comment> \<open>None when \<open>response.json()\<close> raises\<close>
  x_next_page :: header

text \<open>
  The loop \<open>while True\<close> of get_all_projects. \<open>remote k\<close> is what the request number
  \<open>k\<close> of this call gets, counting from 0. The remote may answer every request with a
  full page and a next-page header, and then the loop never ends: the result None.
\<close>

partial_function (option) pages_loop ::
  "semaphore \<Rightarrow> (nat \<Rightarrow> page_response outcome) \<Rightarrow> nat \<Rightarrow> int \<Rightarrow> project list \<Rightarrow> exporter
     \<Rightarrow> (project list \<times> exporter) option" where
  "pages_loop sem remote k page projects st =
     (let st1 = emit (Request (Projects_GET page)) (emit (Acquire sem) st)
      in case remote k of
           Raises e \<Rightarrow>
             Some (projects, emit (Log ERROR (Error_fetching_page page e)) (emit (Release sem) st1))
         | Responds response \<Rightarrow>
             if page_status response \<noteq> 200 then
               Some (projects,
                 emit (Release sem)
                   (emit (Log ERROR (Failed_to_fetch_page page (page_status response))) st1))
             else
               (case page_projects response of
                  None \<Rightarrow>
                    Some (projects,
                      emit (Log ERROR (Error_fetching_page page ClientError)) (emit (Release sem) st1))
                | Some items \<Rightarrow>
                    if items = [] then Some (projects, emit (Release sem) st1)
                    else
                      (case x_next_page response of
                         Number n \<Rightarrow>
                           pages_loop sem remote (k + 1) n (projects @ items) (emit (Release sem) st1)
                       | Malformed \<Rightarrow>
                           Some (projects @ items,
                             emit (Log ERROR (Error_fetching_page page ValueError))
                               (emit (Release sem) st1))
                       | _ \<Rightarrow> Some (projects @ items, emit (Release sem) st1))))"

definition get_all_projects ::
  "semaphore \<Rightarrow> (nat \<Rightarrow> page_response outcome) \<Rightarrow> exporter \<Rightarrow> (project list \<times> exporter) option" where
  "get_all_projects sem remote st =
     (case pages_loop sem remote 0 1 [] st of
        None \<Rightarrow> None
      | Some (projects, st1) \<Rightarrow> Some (projects, st1\<lparr>projects_count := int (length projects)\<rparr>))"

section \<open>validate_connection\<close>

record api_response =
  api_status :: int
  json_ok :: bool     \<comment> \<open>False when \<open>response.json()\<close> raises\<close>

text \<open>
  What one selected instance brings to a run: the directory its exporter writes to
  (exports/name/timestamp) and the answers of its remote.
\<close>

record instance_run =
  instance_dir :: string
  user :: "api_response outcome"
  version :: "api_response outcome"
  project_pages :: "nat \<Rightarrow> page_response outcome"
  project_jobs :: "project \<Rightarrow> job_remote"

definition validate_connection :: "instance_run \<Rightarrow> exporter \<Rightarrow> bool \<times> exporter" where
  "validate_connection inst st =
     (let st1 = emit (Request User_GET) st
      in case user inst of
           Raises e \<Rightarrow> (False, emit (Log ERROR (Connection_failed e)) st1)
         | Responds response \<Rightarrow>
             if api_status response = 200 then
               if \<not> json_ok response then
                 (False, emit (Log ERROR (Connection_failed ClientError)) st1)
               else
                 (let st2 = emit (Request Version_GET) st1
                  in case version inst of
                       Raises e \<Rightarrow> (False, emit (Log ERROR (Connection_failed e)) st2)
                     | Responds ver_response \<Rightarrow>
                         if api_status ver_response = 200 \<and> \<not> json_ok ver_response then
                           (False, emit (Log ERROR (Connection_failed ClientError)) st2)
                         else (True, emit (Log SUCCESS Connected) st2))
             else (False, emit (Log ERROR (Authentication_failed (api_status response))) st1))"

section \<open>TUIInterface.run_export\<close>

definition fresh_stats :: ExportStats where
  "fresh_stats = \<lparr>projects_exported = 0, projects_failed = 0, groups_exported = 0,
     groups_failed = 0, wikis_exported = 0, snippets_exported = 0, total_size = 0, retries = 0\<rparr>"

text \<open>\<open>GitLabAsyncExporter.__init__\<close>, on the files and the trace of the run so far.\<close>

definition new_exporter :: "string \<Rightarrow> (string \<rightharpoonup> byte list) \<Rightarrow> event list \<Rightarrow> exporter" where
  "new_exporter dir fs tr =
     \<lparr>export_dir = dir, stats = fresh_stats, failed_projects = [], projects_count = 0,
      files = fs, trace = tr\<rparr>"

text \<open>
  Lines 714 to 719: one export_project per project, awaited with \<open>asyncio.gather\<close>,
  which raises the first exception of a job. The jobs run concurrently; the model runs
  them one after the other in the order of the list.
\<close>

fun gather_exports ::
  "(nat \<Rightarrow> rat) \<Rightarrow> (job_remote \<times> project) list \<Rightarrow> semaphore \<Rightarrow> exporter
     \<Rightarrow> (error + bool list) \<times> exporter" where
  "gather_exports rnd [] sem st = (Inr [], st)"
| "gather_exports rnd ((env, p) # jobs) sem st =
     (case export_project rnd env p sem st of
        (r, st1) \<Rightarrow>
          (case gather_exports rnd jobs sem st1 of
             (rs, st2) \<Rightarrow>
               ((case r of
                   Inl e \<Rightarrow> Inl e
                 | Inr b \<Rightarrow> (case rs of Inl e \<Rightarrow> Inl e | Inr bs \<Rightarrow> Inr (b # bs))), st2)))"

text \<open>
  The local variables of run_export that hold the semaphores: None is an unbound local.
  Python makes both names local to the whole function, since the function assigns them
  (lines 710 and 711).
\<close>

record locals =
  download_semaphore :: "semaphore option"
  api_semaphore :: "semaphore option"

text \<open>
  The loop \<open>for instance in selected_instances\<close> (lines 668 to 764), up to the end of the
  project exports; the passes over wikis, snippets and metadata and the report come
  after and are left out. The result is the exception that leaves run_export, if any,
  with the locals, the files and the trace at that point.
\<close>

fun run_export_loop ::
  "(nat \<Rightarrow> rat) \<Rightarrow> instance_run list \<Rightarrow> locals \<Rightarrow> (string \<rightharpoonup> byte list) \<Rightarrow> event list
     \<Rightarrow> ((error + unit) \<times> locals \<times> (string \<rightharpoonup> byte list) \<times> event list) option" where
  "run_export_loop rnd [] ls fs tr = Some (Inr (), ls, fs, tr)"
| "run_export_loop rnd (inst # rest) ls fs tr =
     (case validate_connection inst (new_exporter (instance_dir inst) fs tr) of
        (False, st1) \<Rightarrow> run_export_loop rnd rest ls (files st1) (trace st1)
      | (True, st1) \<Rightarrow>
          (case api_semaphore ls of
             None \<Rightarrow> Some (Inl UnboundLocalError, ls, files st1, trace st1)
           | Some sem \<Rightarrow>
               (case get_all_projects sem (project_pages inst) st1 of
                  None \<Rightarrow> None
                | Some (projects, st2) \<Rightarrow>
                    if projects = [] then run_export_loop rnd rest ls (files st2) (trace st2)
                    else
                      (let ls1 = ls\<lparr>download_semaphore := Some Download_semaphore,
                                     api_semaphore := Some Api_semaphore\<rparr>
                       in case gather_exports rnd (map (\<lambda>p. (project_jobs inst p, p)) projects)
                                 Download_semaphore st2 of
                            (Inl e, st3) \<Rightarrow> Some (Inl e, ls1, files st3, trace st3)
                          | (Inr bs, st3) \<Rightarrow>
                              run_export_loop rnd rest ls1 (files st3) (trace st3)))))"

definition run_export ::
  "(nat \<Rightarrow> rat) \<Rightarrow> instance_run list \<Rightarrow> (string \<rightharpoonup> byte list) \<Rightarrow> event list
     \<Rightarrow> ((error + unit) \<times> locals \<times> (string \<rightharpoonup> byte list) \<times> event list) option" where
  "run_export rnd insts fs tr =
     run_export_loop rnd insts \<lparr>download_semaphore = None, api_semaphore = None\<rparr> fs tr"

section \<open>Observations on states and traces\<close>

fun requests_of :: "event list \<Rightarrow> request list" where
  "requests_of [] = []"
| "requests_of (Request r # es) = r # requests_of es"
| "requests_of (e # es) = requests_of es"

fun sleeps_of :: "event list \<Rightarrow> rat list" where
  "sleeps_of [] = []"
| "sleeps_of (Sleep d # es) = d # sleeps_of es"
| "sleeps_of (e # es) = sleeps_of es"

fun logs_of :: "event list \<Rightarrow> message list" where
  "logs_of [] = []"
| "logs_of (Log l m # es) = m # logs_of es"
| "logs_of (e # es) = logs_of es"

definition counted :: "exporter \<Rightarrow> int" where
  "counted st = projects_exported (stats st) + projects_failed (stats st)"


section \<open>Concrete runs\<close>

text \<open>Inputs at which the properties below are evaluated.\<close>

definition rnd0 :: "nat \<Rightarrow> rat" where
  "rnd0 k = 0"

definition st0 :: exporter where
  "st0 = new_exporter ''exports/gl/run1'' Map.empty []"

definition project_a :: project where
  "project_a = \<lparr>project_id = 1, path_with_namespace = ''grp/a''\<rparr>"

definition project_b :: project where
  "project_b = \<lparr>project_id = 2, path_with_namespace = ''grp/b''\<rparr>"

definition archive :: "byte list" where
  "archive = [31, 139, 8, 0, 7]"

text \<open>A remote that honours the Range header of the download request.\<close>

definition range_server :: "byte list \<Rightarrow> int option \<Rightarrow> download_response outcome" where
  "range_server content rng =
     (case rng of
        None \<Rightarrow> Responds \<lparr>status = 200, content_length = Number (int (length content)),
                   chunks = [content], stream_breaks = False\<rparr>
      | Some n \<Rightarrow>
          if 0 \<le> n \<and> n < int (length content) then
            Responds \<lparr>status = 206, content_length = Number (int (length content) - n),
              chunks = [drop (nat n) content], stream_breaks = False\<rparr>
          else Responds \<lparr>status = 416, content_length = Number 0, chunks = [], stream_breaks = False\<rparr>)"

definition finished_poll :: "nat \<Rightarrow> poll_response outcome" where
  "finished_poll k = Responds \<lparr>poll_status = 200, export_status = Some ''finished''\<rparr>"

definition remote_ok :: job_remote where
  "remote_ok = \<lparr>trigger = Responds 202, polls = finished_poll, download = range_server archive\<rparr>"

definition remote_rate_limited :: job_remote where
  "remote_rate_limited = \<lparr>trigger = Responds 429, polls = finished_poll, download = range_server archive\<rparr>"

text \<open>A first run downloads the archive; the second run finds the file.\<close>

definition st_exported :: exporter where
  "st_exported = snd (export_project rnd0 remote_ok project_a Download_semaphore st0)"


text \<open>The export finishes but the download is answered with status 500.\<close>

definition broken_download :: "int option \<Rightarrow> download_response outcome" where
  "broken_download rng =
     Responds \<lparr>status = 500, content_length = Absent, chunks = [], stream_breaks = False\<rparr>"

definition remote_download_fails :: job_remote where
  "remote_download_fails =
     \<lparr>trigger = Responds 202, polls = finished_poll, download = broken_download\<rparr>"

text \<open>
  The status poll is answered with 503 a hundred and twenty times; from then on the
  export is finished.
\<close>

definition unavailable_poll :: "nat \<Rightarrow> poll_response outcome" where
  "unavailable_poll k =
     (if k < 120 then Responds \<lparr>poll_status = 503, export_status = None\<rparr>
      else Responds \<lparr>poll_status = 200, export_status = Some ''finished''\<rparr>)"

definition remote_unavailable :: job_remote where
  "remote_unavailable =
     \<lparr>trigger = Responds 202, polls = unavailable_poll, download = range_server archive\<rparr>"

text \<open>Polls answered 503, then started, then finished; and a poll answered failed.\<close>

definition slow_poll :: "nat \<Rightarrow> poll_response outcome" where
  "slow_poll k =
     (if k = 0 then Responds \<lparr>poll_status = 503, export_status = None\<rparr>
      else if k = 1 then Responds \<lparr>poll_status = 200, export_status = Some ''started''\<rparr>
      else Responds \<lparr>poll_status = 200, export_status = Some ''finished''\<rparr>)"

definition remote_slow :: job_remote where
  "remote_slow = \<lparr>trigger = Responds 202, polls = slow_poll, download = range_server archive\<rparr>"

definition failed_poll :: "nat \<Rightarrow> poll_response outcome" where
  "failed_poll k = Responds \<lparr>poll_status = 200, export_status = Some ''failed''\<rparr>"

definition remote_export_fails :: job_remote where
  "remote_export_fails =
     \<lparr>trigger = Responds 202, polls = failed_poll, download = range_server archive\<rparr>"

definition file_a :: string where
  "file_a = ''exports/gl/run1/projects/grp_a.tar.gz''"

section \<open>The poll loop, attempt by attempt\<close>

text \<open>
  A poll that decides nothing: its status is not 200, or its export_status is neither
  finished nor failed.
\<close>

definition pending :: "poll_response outcome \<Rightarrow> bool" where
  "pending r =
     (case r of
        Raises e \<Rightarrow> False
      | Responds response \<Rightarrow>
          if poll_status response \<noteq> 200 then True
          else (case export_status response of
                  None \<Rightarrow> False
                | Some s \<Rightarrow> s \<noteq> ''finished'' \<and> s \<noteq> ''failed''))"

text \<open>The state after \<open>n\<close> more polls: each is a sleep of 5 seconds and a status request.\<close>

fun polled :: "project \<Rightarrow> nat \<Rightarrow> exporter \<Rightarrow> exporter" where
  "polled p 0 st = st"
| "polled p (Suc n) st =
     polled p n (emit (Request (Export_GET (project_id p))) (emit (Sleep 5) st))"

text \<open>A first page with one project and a next-page header, then a page answered 429.\<close>

definition pages_then_429 :: "nat \<Rightarrow> page_response outcome" where
  "pages_then_429 k =
     (if k = 0 then
        Responds \<lparr>page_status = 200, page_projects = Some [project_a], x_next_page = Number 2\<rparr>
      else Responds \<lparr>page_status = 429, page_projects = None, x_next_page = Absent\<rparr>)"

text \<open>A first poll answered 429, then the export is finished.\<close>

definition throttled_poll :: "nat \<Rightarrow> poll_response outcome" where
  "throttled_poll k =
     (if k = 0 then Responds \<lparr>poll_status = 429, export_status = None\<rparr>
      else Responds \<lparr>poll_status = 200, export_status = Some ''finished''\<rparr>)"

definition remote_throttled :: job_remote where
  "remote_throttled =
     \<lparr>trigger = Responds 202, polls = throttled_poll, download = range_server archive\<rparr>"

section \<open>Pages of projects\<close>

text \<open>
  A page after which get_all_projects asks for another one: status 200, a list that
  is not empty, and a next-page header that holds a number.
\<close>

definition continues :: "page_response outcome \<Rightarrow> bool" where
  "continues r =
     (case r of
        Raises e \<Rightarrow> False
      | Responds response \<Rightarrow>
          page_status response = 200 \<and>
          (case page_projects response of
             None \<Rightarrow> False
           | Some items \<Rightarrow>
               items \<noteq> [] \<and> (case x_next_page response of Number n \<Rightarrow> True | _ \<Rightarrow> False)))"

text \<open>The projects of a page with status 200; nothing for any other answer.\<close>

definition page_items :: "page_response outcome \<Rightarrow> project list" where
  "page_items r =
     (case r of
        Raises e \<Rightarrow> []
      | Responds response \<Rightarrow>
          if page_status response \<noteq> 200 then []
          else (case page_projects response of None \<Rightarrow> [] | Some items \<Rightarrow> items))"

text \<open>One page of two projects without a next-page header; and two pages of one project.\<close>

definition single_page :: "nat \<Rightarrow> page_response outcome" where
  "single_page k =
     Responds \<lparr>page_status = 200, page_projects = Some [project_a, project_b],
       x_next_page = Absent\<rparr>"

definition two_pages :: "nat \<Rightarrow> page_response outcome" where
  "two_pages k =
     (if k = 0 then
        Responds \<lparr>page_status = 200, page_projects = Some [project_a], x_next_page = Number 2\<rparr>
      else
        Responds \<lparr>page_status = 200, page_projects = Some [project_b], x_next_page = Empty\<rparr>)"

section \<open>Downloads that resume\<close>

text \<open>
  A remote that ignores the Range header and always sends the whole archive with status
  200; a state whose export file holds the first two bytes of the archive.
\<close>

definition full_body_server :: "byte list \<Rightarrow> int option \<Rightarrow> download_response outcome" where
  "full_body_server content rng =
     Responds \<lparr>status = 200, content_length = Number (int (length content)),
       chunks = [content], stream_breaks = False\<rparr>"

definition st_partial :: exporter where
  "st_partial = st0\<lparr>files := [file_a \<mapsto> take 2 archive]\<rparr>"

section \<open>Runs over instances\<close>

text \<open>
  Whether validate_connection succeeds depends on the answers of the instance only.
\<close>

definition connection_ok :: "instance_run \<Rightarrow> bool" where
  "connection_ok inst = fst (validate_connection inst (new_exporter [] Map.empty []))"

text \<open>The events of validate_connection: its two requests and its log lines.\<close>

fun is_validation_event :: "event \<Rightarrow> bool" where
  "is_validation_event (Request User_GET) = True"
| "is_validation_event (Request Version_GET) = True"
| "is_validation_event (Log l m) = True"
| "is_validation_event e = False"

text \<open>The events of a run that come from fetching project pages or exporting projects.\<close>

definition export_events :: "event list \<Rightarrow> event list" where
  "export_events tr = filter (\<lambda>e. \<not> is_validation_event e) tr"

text \<open>An instance that cannot be reached, and one that answers and has one project.\<close>

definition instance_down :: instance_run where
  "instance_down =
     \<lparr>instance_dir = ''exports/down/run1'', user = Raises ClientError,
      version = Raises ClientError, project_pages = single_page,
      project_jobs = (\<lambda>p. remote_ok)\<rparr>"

definition instance_up :: instance_run where
  "instance_up =
     \<lparr>instance_dir = ''exports/gl/run1'',
      user = Responds \<lparr>api_status = 200, json_ok = True\<rparr>,
      version = Responds \<lparr>api_status = 200, json_ok = True\<rparr>,
      project_pages = single_page, project_jobs = (\<lambda>p. remote_ok)\<rparr>"

section \<open>Jobs that share a semaphore\<close>

text \<open>
  \<open>asyncio.gather\<close> runs the export jobs as tasks of one event loop. A task is the list
  of events it has performed and the list of events it has still to perform; a step of
  the loop lets one task perform its next event. The semaphore is its counter: an
  Acquire can be performed only while the counter is positive and decrements it, a
  Release increments it (asyncio.Semaphore).
\<close>

record task =
  performed :: "event list"
  pending_events :: "event list"

record sched =
  permits :: nat
  tasks :: "task list"

definition advance :: "nat \<Rightarrow> sched \<Rightarrow> sched" where
  "advance i s =
     (let t = tasks s ! i
      in s\<lparr>tasks := (tasks s)[i := \<lparr>performed = performed t @ [hd (pending_events t)],
                                    pending_events = tl (pending_events t)\<rparr>]\<rparr>)"

text \<open>Task \<open>i\<close> performs its next event; None when it has none or has to wait.\<close>

definition fire :: "semaphore \<Rightarrow> nat \<Rightarrow> sched \<Rightarrow> sched option" where
  "fire sem i s =
     (if i \<ge> length (tasks s) then None
      else
        (case pending_events (tasks s ! i) of
           [] \<Rightarrow> None
         | e # es \<Rightarrow>
             if e = Acquire sem then
               (if permits s = 0 then None
                else Some (advance i (s\<lparr>permits := permits s - 1\<rparr>)))
             else if e = Release sem then Some (advance i (s\<lparr>permits := permits s + 1\<rparr>))
             else Some (advance i s)))"

text \<open>A schedule is the order in which the tasks take their steps.\<close>

fun run :: "semaphore \<Rightarrow> nat list \<Rightarrow> sched \<Rightarrow> sched option" where
  "run sem [] s = Some s"
| "run sem (i # schedule) s =
     (case fire sem i s of None \<Rightarrow> None | Some s1 \<Rightarrow> run sem schedule s1)"

definition start :: "nat \<Rightarrow> event list list \<Rightarrow> sched" where
  "start c jobs = \<lparr>permits = c, tasks = map (\<lambda>evs. \<lparr>performed = [], pending_events = evs\<rparr>) jobs\<rparr>"

text \<open>The slots of the semaphore a task holds, and the slots all tasks hold.\<close>

definition slots_held :: "semaphore \<Rightarrow> task \<Rightarrow> nat" where
  "slots_held sem t =
     length (filter (\<lambda>e. e = Acquire sem) (performed t))
       - length (filter (\<lambda>e. e = Release sem) (performed t))"

definition holders :: "semaphore \<Rightarrow> sched \<Rightarrow> nat" where
  "holders sem s = sum_list (map (slots_held sem) (tasks s))"

text \<open>The events a coroutine adds to the trace when it runs from a state.\<close>

definition job_events :: "(exporter \<Rightarrow> 'r \<times> exporter) \<Rightarrow> exporter \<Rightarrow> event list" where
  "job_events f st = drop (length (trace st)) (trace (snd (f st)))"

fun is_semaphore_event :: "event \<Rightarrow> bool" where
  "is_semaphore_event (Acquire sem) = True"
| "is_semaphore_event (Release sem) = True"
| "is_semaphore_event e = False"

text \<open>
  \<open>st'\<close> comes from \<open>st\<close> by events that are neither an Acquire nor a Release.
\<close>

definition grows :: "exporter \<Rightarrow> exporter \<Rightarrow> bool" where
  "grows st st' =
     (take (length (trace st)) (trace st') = trace st
      \<and> list_all (\<lambda>e. \<not> is_semaphore_event e) (drop (length (trace st)) (trace st')))"

text \<open>One Acquire of the semaphore, events of other kinds, one Release.\<close>

definition bracketed :: "semaphore \<Rightarrow> event list \<Rightarrow> bool" where
  "bracketed sem evs =
     (case evs of
        [] \<Rightarrow> False
      | e # rest \<Rightarrow>
          e = Acquire sem \<and> rest \<noteq> [] \<and> last rest = Release sem
          \<and> list_all (\<lambda>e. \<not> is_semaphore_event e) (butlast rest))"

text \<open>A task whose events, performed and pending together, are bracketed.\<close>

definition orderly :: "semaphore \<Rightarrow> task \<Rightarrow> bool" where
  "orderly sem t = bracketed sem (performed t @ pending_events t)"

text \<open>Three jobs whose export POST is answered 429, and two slots.\<close>

definition project_c :: project where
  "project_c = \<lparr>project_id = 3, path_with_namespace = ''grp/c''\<rparr>"

definition three_jobs :: "event list list" where
  "three_jobs =
     [job_events (export_project rnd0 remote_rate_limited project_a Download_semaphore) st0,
      job_events (export_project rnd0 remote_rate_limited project_b Download_semaphore) st0,
      job_events (export_project rnd0 remote_rate_limited project_c Download_semaphore) st0]"

section \<open>An operation that is always rate limited\<close>

text \<open>A coroutine that sends one request and raises the error of a 429 answer.\<close>

definition always_429 :: "request \<Rightarrow> exporter \<Rightarrow> (error + bool) \<times> exporter" where
  "always_429 r st = (Inl (ClientResponseError 429), emit (Request r) st)"

section \<open>Properties\<close>

subsection \<open>The decorated coroutines return\<close>

lemma wrapper_loop_returns:
  "f st = (Inr v, st1) \<Longrightarrow> wrapper_loop n b rnd f x st = (Inr v, st1)"
  by (subst wrapper_loop.simps) simp

lemma download_export_body_returns:
  "\<exists>b st1. download_export_body remote pid path fl st = (Inr b, st1)"
  by (auto simp: download_export_body_def Let_def split: prod.splits outcome.splits header.splits)

lemma download_export_eq:
  "download_export rnd remote pid path fl st = download_export_body remote pid path fl st"
proof -
  obtain b st1 where "download_export_body remote pid path fl st = (Inr b, st1)"
    using download_export_body_returns by blast
  then show ?thesis
    by (simp add: download_export_def async_retry_with_backoff_def wrapper_loop_returns)
qed

lemma export_project_eq:
  "export_project rnd env p sem st = export_project_body rnd env p sem st"
proof -
  obtain b st1 where "export_project_body rnd env p sem st = (Inr b, st1)"
    by (cases "export_project_try rnd env p (emit (Acquire sem) st)")
       (simp add: export_project_body_def)
  then show ?thesis
    by (simp add: export_project_def async_retry_with_backoff_def wrapper_loop_returns)
qed


subsection \<open>Evaluation\<close>

lemma attempts_unfold: "[0..<max_attempts] = 0 # [Suc 0..<max_attempts]"
  by (simp add: max_attempts_def upt_conv_Cons)

lemmas eval_defs = export_project_eq export_project_body_def export_project_try_def
  export_file_of_def emit_def inc_projects_exported_def inc_projects_failed_def append_failed_def
  add_total_size_def on_exception_def fail_with_def finish_download_def download_export_eq
  download_export_body_def download_plan_def write_chunks_def attempts_unfold Let_def
  new_exporter_def fresh_stats_def

lemmas example_defs = st0_def remote_ok_def remote_rate_limited_def project_a_def project_b_def
  finished_poll_def range_server_def archive_def

subsection \<open>Every job is counted once\<close>

lemma requests_of_append [simp]: "requests_of (xs @ ys) = requests_of xs @ requests_of ys"
  by (induction xs rule: requests_of.induct) auto

lemma counted_simps [simp]:
  "counted (emit e st) = counted st"
  "counted (inc_projects_exported st) = counted st + 1"
  "counted (inc_projects_failed st) = counted st + 1"
  "counted (append_failed p st) = counted st"
  "counted (add_total_size n st) = counted st"
  "counted (write_chunks fl mode cs st) = counted st"
  by (simp_all add: counted_def emit_def inc_projects_exported_def inc_projects_failed_def
      append_failed_def add_total_size_def write_chunks_def Let_def)

lemma download_export_body_counted:
  "counted (snd (download_export_body remote pid path fl st)) = counted st"
  by (auto simp: download_export_body_def Let_def split: prod.splits outcome.splits header.splits)

lemma finish_download_counted:
  "counted (snd (finish_download rnd env p fl st)) = counted st + 1"
  using download_export_body_counted [of "download env" "project_id p" "path_with_namespace p" fl st]
  by (auto simp: finish_download_def download_export_eq on_exception_def split: prod.splits sum.splits)

lemma poll_loop_counted:
  "counted (snd (poll_loop rnd env p fl as st)) = counted st + 1"
proof (induction as arbitrary: st)
  case Nil
  then show ?case by (simp add: fail_with_def)
next
  case (Cons a as)
  then show ?case
    by (auto simp: Let_def on_exception_def fail_with_def finish_download_counted
        split: outcome.splits option.splits)
qed

lemma export_project_try_counted:
  "counted (snd (export_project_try rnd env p st)) = counted st + 1"
  by (auto simp: export_project_try_def Let_def on_exception_def fail_with_def poll_loop_counted
      split: outcome.splits)

lemma export_project_counted:
  "counted (snd (export_project rnd env p sem st)) = counted st + 1"
  using export_project_try_counted [of rnd env p "emit (Acquire sem) st"]
  by (auto simp: export_project_eq export_project_body_def split: prod.splits)

lemma gather_exports_counted:
  "counted (snd (gather_exports rnd jobs sem st)) = counted st + int (length jobs)"
proof (induction jobs arbitrary: st)
  case Nil
  then show ?case by simp
next
  case (Cons job jobs)
  obtain env p where job: "job = (env, p)" by (cases job)
  obtain r st1 where first: "export_project rnd env p sem st = (r, st1)"
    by (cases "export_project rnd env p sem st")
  have "counted st1 = counted st + 1"
    using export_project_counted [of rnd env p sem st] first by simp
  moreover have "counted (snd (gather_exports rnd jobs sem st1)) = counted st1 + int (length jobs)"
    by (rule Cons.IH)
  ultimately show ?case
    using job first by (cases "gather_exports rnd jobs sem st1") simp
qed

subsection \<open>Statistics of a batch\<close>

text \<open>
  Claim C6. After a batch of N export jobs, started on the counters of a new exporter,
  projects_exported + projects_failed is N, and success_rate is
  projects_exported / (projects_exported + projects_failed) * 100, or 0 when both
  counters are 0.
\<close>

theorem batch_statistics_consistent:
  assumes "stats st = fresh_stats"
    and "gather_exports rnd jobs sem st = (r, st')"
  shows "projects_exported (stats st') + projects_failed (stats st') = int (length jobs)
    \<and> success_rate (stats st') =
        (if projects_exported (stats st') = 0 \<and> projects_failed (stats st') = 0 then 0
         else of_int (projects_exported (stats st'))
                / of_int (projects_exported (stats st') + projects_failed (stats st')) * 100)"
proof -
  have total: "counted st' = int (length jobs)"
    using gather_exports_counted [of rnd jobs sem st] assms
    by (simp add: counted_def fresh_stats_def)
  show ?thesis
  proof (cases jobs)
    case Nil
    with assms have "st' = st" by simp
    with assms(1) show ?thesis
      using Nil by (simp add: success_rate_def fresh_stats_def)
  next
    case (Cons job rest)
    with total have "counted st' > 0" by simp
    then show ?thesis
      using total by (auto simp: success_rate_def counted_def Let_def)
  qed
qed

theorem batch_statistics_consistent_witness:
  "projects_exported (stats (snd (gather_exports rnd0
       [(remote_ok, project_a), (remote_rate_limited, project_b)] Download_semaphore st0))) = 1
   \<and> projects_failed (stats (snd (gather_exports rnd0
       [(remote_ok, project_a), (remote_rate_limited, project_b)] Download_semaphore st0))) = 1
   \<and> success_rate (stats (snd (gather_exports rnd0
       [(remote_ok, project_a), (remote_rate_limited, project_b)] Download_semaphore st0))) = 50"
proof -
  let ?jobs = "[(remote_ok, project_a), (remote_rate_limited, project_b)]"
  let ?st = "snd (gather_exports rnd0 ?jobs Download_semaphore st0)"
  have start: "stats st0 = fresh_stats"
    by (simp add: st0_def new_exporter_def)
  have run: "gather_exports rnd0 ?jobs Download_semaphore st0
      = (fst (gather_exports rnd0 ?jobs Download_semaphore st0), ?st)"
    by simp
  have e: "projects_exported (stats ?st) = 1"
    by (simp add: eval_defs example_defs)
  have f: "projects_failed (stats ?st) = 1"
    by (simp add: eval_defs example_defs)
  from batch_statistics_consistent [OF start run] e f show ?thesis
    by simp
qed

subsection \<open>A project whose export file exists\<close>

text \<open>
  Claim C5. When the export file of the project is already on disk, export_project
  returns True, counts the project as exported, sends no request and leaves the files
  as they are: its only effects are taking and releasing the semaphore, the log line
  and the counter.
\<close>

theorem already_exported_noop:
  assumes "files st (export_file_of st (path_with_namespace p)) \<noteq> None"
  shows "\<exists>st'. export_project rnd env p sem st = (Inr True, st')
    \<and> requests_of (trace st') = requests_of (trace st)
    \<and> trace st' = trace st @ [Acquire sem, Log INFO (Already_exported (path_with_namespace p)),
         Release sem]
    \<and> files st' = files st
    \<and> projects_exported (stats st') = projects_exported (stats st) + 1
    \<and> projects_failed (stats st') = projects_failed (stats st)
    \<and> failed_projects st' = failed_projects st"
  using assms
  by (simp add: export_project_eq export_project_body_def export_project_try_def Let_def
      export_file_of_def emit_def inc_projects_exported_def)

theorem already_exported_noop_witness:
  "files st_exported (export_file_of st_exported (path_with_namespace project_a)) = Some archive
   \<and> fst (export_project rnd0 remote_rate_limited project_a Download_semaphore st_exported) = Inr True
   \<and> requests_of (trace (snd (export_project rnd0 remote_rate_limited project_a Download_semaphore st_exported)))
       = requests_of (trace st_exported)
   \<and> files (snd (export_project rnd0 remote_rate_limited project_a Download_semaphore st_exported)) = files st_exported
   \<and> projects_exported (stats (snd (export_project rnd0 remote_rate_limited project_a
         Download_semaphore st_exported))) = 2"
proof -
  have exists: "files st_exported (export_file_of st_exported (path_with_namespace project_a)) = Some archive"
    by (simp add: st_exported_def eval_defs example_defs)
  have before: "projects_exported (stats st_exported) = 1"
    by (simp add: st_exported_def eval_defs example_defs)
  from exists have "files st_exported (export_file_of st_exported (path_with_namespace project_a)) \<noteq> None"
    by simp
  from already_exported_noop [OF this, of rnd0 remote_rate_limited Download_semaphore] exists before
  show ?thesis
    by auto
qed

subsection \<open>Failures that are counted but not recorded\<close>

text \<open>
  Claim C1, evaluated where the code departs from it. The export of the project
  finishes and the download is answered with status 500: export_project returns False
  and counts the project as failed, and the list of failed projects stays empty.
\<close>

theorem download_failure_not_in_failed_list:
  "fst (export_project rnd0 remote_download_fails project_a Download_semaphore st0) = Inr False
   \<and> projects_failed (stats (snd (export_project rnd0 remote_download_fails project_a
        Download_semaphore st0))) = 1
   \<and> failed_projects (snd (export_project rnd0 remote_download_fails project_a
        Download_semaphore st0)) = []"
  by (simp add: eval_defs example_defs remote_download_fails_def broken_download_def)

subsection \<open>A 429 on the export trigger\<close>

text \<open>
  Claim C2, evaluated where the code departs from it. The export POST is answered with
  429: the handler of export_project catches the error of raise_for_status, so the
  decorator sees a normal return. One request is sent, nothing sleeps, the retry counter
  stays 0 and the job returns False, counted as failed.
\<close>

theorem trigger_429_not_retried:
  "fst (export_project rnd0 remote_rate_limited project_a Download_semaphore st0) = Inr False
   \<and> requests_of (trace (snd (export_project rnd0 remote_rate_limited project_a
        Download_semaphore st0))) = [Export_POST 1]
   \<and> sleeps_of (trace (snd (export_project rnd0 remote_rate_limited project_a
        Download_semaphore st0))) = []
   \<and> retries (stats (snd (export_project rnd0 remote_rate_limited project_a
        Download_semaphore st0))) = 0
   \<and> projects_failed (stats (snd (export_project rnd0 remote_rate_limited project_a
        Download_semaphore st0))) = 1"
  by (simp add: eval_defs example_defs)

subsection \<open>The poll loop\<close>

lemma polled_add: "polled p (Suc n) st = polled p 1 (polled p n st)"
  by (induction n arbitrary: st) simp_all

lemma trace_polled:
  "trace (polled p n st) =
     trace st @ concat (replicate n [Sleep 5, Request (Export_GET (project_id p))])"
  by (induction n arbitrary: st) (simp_all add: emit_def)

lemma polled_keeps [simp]:
  "stats (polled p n st) = stats st"
  "failed_projects (polled p n st) = failed_projects st"
  "files (polled p n st) = files st"
  "export_dir (polled p n st) = export_dir st"
  by (induction n arbitrary: st) (simp_all add: emit_def)

lemma poll_loop_pending:
  "\<forall>a \<in> set as. pending (polls env a) \<Longrightarrow>
   poll_loop rnd env p fl as st
     = fail_with p (Export_timeout (path_with_namespace p)) (polled p (length as) st)"
proof (induction as arbitrary: st)
  case Nil
  then show ?case by simp
next
  case (Cons a as)
  then have "pending (polls env a)" and rest: "\<forall>b \<in> set as. pending (polls env b)"
    by simp_all
  then show ?case
    using Cons.IH [OF rest]
    by (auto simp: pending_def Let_def split: outcome.splits option.splits if_splits)
qed

text \<open>
  Claim C3, amended. A poll whose status is not 200 changes nothing but uses up its
  attempt: the loop goes on with the attempts that are left. A poll with status 200 and
  export_status finished starts the download, failed ends the job as failed, any other
  value goes on polling. When none of the 120 attempts decides, whatever their status,
  the job ends with the timeout. Every poll comes after a sleep of 5 seconds.
\<close>

theorem poll_loop_transitions:
  "(polls env a = Responds r \<and> poll_status r \<noteq> 200 \<longrightarrow>
      poll_loop rnd env p fl (a # rest) st = poll_loop rnd env p fl rest (polled p 1 st))
   \<and> (polls env a = Responds r \<and> poll_status r = 200 \<and> export_status r = Some ''finished'' \<longrightarrow>
      poll_loop rnd env p fl (a # rest) st = finish_download rnd env p fl (polled p 1 st))
   \<and> (polls env a = Responds r \<and> poll_status r = 200 \<and> export_status r = Some ''failed'' \<longrightarrow>
      poll_loop rnd env p fl (a # rest) st
        = fail_with p (Export_failed (path_with_namespace p)) (polled p 1 st))
   \<and> (polls env a = Responds r \<and> poll_status r = 200 \<and> export_status r = Some s
        \<and> s \<noteq> ''finished'' \<and> s \<noteq> ''failed'' \<longrightarrow>
      poll_loop rnd env p fl (a # rest) st = poll_loop rnd env p fl rest (polled p 1 st))
   \<and> ((\<forall>k < 120. pending (polls env k)) \<longrightarrow>
      poll_loop rnd env p fl [0..<max_attempts] st
        = fail_with p (Export_timeout (path_with_namespace p)) (polled p 120 st))
   \<and> trace (polled p n st)
        = trace st @ concat (replicate n [Sleep 5, Request (Export_GET (project_id p))])"
proof -
  have timeout: "(\<forall>k < 120. pending (polls env k)) \<longrightarrow>
      poll_loop rnd env p fl [0..<max_attempts] st
        = fail_with p (Export_timeout (path_with_namespace p)) (polled p 120 st)"
  proof
    assume "\<forall>k < 120. pending (polls env k)"
    then have "\<forall>a \<in> set [0..<max_attempts]. pending (polls env a)"
      by (simp add: max_attempts_def)
    from poll_loop_pending [OF this] show
      "poll_loop rnd env p fl [0..<max_attempts] st
        = fail_with p (Export_timeout (path_with_namespace p)) (polled p 120 st)"
      by (simp add: max_attempts_def)
  qed
  show ?thesis
    using timeout trace_polled [of p n st] by (simp add: Let_def)
qed


lemma logs_of_append [simp]: "logs_of (xs @ ys) = logs_of xs @ logs_of ys"
  by (induction xs rule: logs_of.induct) auto

lemma sleeps_of_append [simp]: "sleeps_of (xs @ ys) = sleeps_of xs @ sleeps_of ys"
  by (induction xs rule: sleeps_of.induct) auto

lemma logs_of_polls [simp]:
  "logs_of (concat (replicate n [Sleep d, Request r])) = []"
  by (induction n) simp_all

lemma requests_of_polls [simp]:
  "requests_of (concat (replicate n [Sleep d, Request r])) = replicate n r"
  by (induction n) simp_all

theorem poll_loop_transitions_witness:
  "poll_loop rnd0 remote_slow project_a file_a [0, 1, 2] st0
     = finish_download rnd0 remote_slow project_a file_a (polled project_a 3 st0)
   \<and> poll_loop rnd0 remote_export_fails project_a file_a [0] st0
     = fail_with project_a (Export_failed ''grp/a'') (polled project_a 1 st0)
   \<and> poll_loop rnd0 remote_unavailable project_a file_a [0..<max_attempts] st0
     = fail_with project_a (Export_timeout ''grp/a'') (polled project_a 120 st0)
   \<and> requests_of (trace (polled project_a 120 st0)) = replicate 120 (Export_GET 1)"
proof -
  have not_200: "poll_loop rnd0 remote_slow project_a file_a (0 # [1, 2]) st0
      = poll_loop rnd0 remote_slow project_a file_a [1, 2] (polled project_a 1 st0)"
    using poll_loop_transitions [where env = remote_slow and a = 0 and rest = "[1, 2]"
        and r = "\<lparr>poll_status = 503, export_status = None\<rparr>" and rnd = rnd0
        and p = project_a and fl = file_a and st = st0]
    by (simp add: remote_slow_def slow_poll_def)
  have started: "poll_loop rnd0 remote_slow project_a file_a (1 # [2]) (polled project_a 1 st0)
      = poll_loop rnd0 remote_slow project_a file_a [2] (polled project_a 1 (polled project_a 1 st0))"
    using poll_loop_transitions [where env = remote_slow and a = 1 and rest = "[2]"
        and r = "\<lparr>poll_status = 200, export_status = Some ''started''\<rparr>" and s = "''started''"
        and rnd = rnd0 and p = project_a and fl = file_a and st = "polled project_a 1 st0"]
    by (simp add: remote_slow_def slow_poll_def)
  have finished: "poll_loop rnd0 remote_slow project_a file_a (2 # [])
        (polled project_a 1 (polled project_a 1 st0))
      = finish_download rnd0 remote_slow project_a file_a
          (polled project_a 1 (polled project_a 1 (polled project_a 1 st0)))"
    using poll_loop_transitions [where env = remote_slow and a = 2 and rest = "[]"
        and r = "\<lparr>poll_status = 200, export_status = Some ''finished''\<rparr>"
        and rnd = rnd0 and p = project_a and fl = file_a
        and st = "polled project_a 1 (polled project_a 1 st0)"]
    by (simp add: remote_slow_def slow_poll_def)
  have failed: "poll_loop rnd0 remote_export_fails project_a file_a (0 # []) st0
      = fail_with project_a (Export_failed (path_with_namespace project_a)) (polled project_a 1 st0)"
    using poll_loop_transitions [where env = remote_export_fails and a = 0 and rest = "[]"
        and r = "\<lparr>poll_status = 200, export_status = Some ''failed''\<rparr>"
        and rnd = rnd0 and p = project_a and fl = file_a and st = st0]
    by (simp add: remote_export_fails_def failed_poll_def)
  have timeout: "poll_loop rnd0 remote_unavailable project_a file_a [0..<max_attempts] st0
      = fail_with project_a (Export_timeout (path_with_namespace project_a)) (polled project_a 120 st0)"
    using poll_loop_transitions [where env = remote_unavailable
        and rnd = rnd0 and p = project_a and fl = file_a and st = st0]
    by (simp add: remote_unavailable_def unavailable_poll_def pending_def)
  have polls: "requests_of (trace (polled project_a 120 st0)) = replicate 120 (Export_GET 1)"
    using poll_loop_transitions [where p = project_a and n = 120 and st = st0]
    by (simp add: project_a_def st0_def new_exporter_def)
  have three: "polled project_a 1 (polled project_a 1 (polled project_a 1 st0)) = polled project_a 3 st0"
    by (simp add: numeral_3_eq_3)
  from not_200 started finished failed timeout polls three show ?thesis
    by (simp add: project_a_def)
qed

text \<open>
  The claim is false as stated. All 120 polls are answered with 503, and the poll after
  them would report the export finished: the job has timed out by then, with 120 status
  requests sent and nothing downloaded.
\<close>

theorem unavailable_polls_use_up_attempts:
  "fst (export_project rnd0 remote_unavailable project_a Download_semaphore st0) = Inr False
   \<and> requests_of (trace (snd (export_project rnd0 remote_unavailable project_a
        Download_semaphore st0))) = Export_POST 1 # replicate 120 (Export_GET 1)
   \<and> logs_of (trace (snd (export_project rnd0 remote_unavailable project_a
        Download_semaphore st0))) = [Export_timeout ''grp/a'']
   \<and> files (snd (export_project rnd0 remote_unavailable project_a Download_semaphore st0)) file_a
        = None
   \<and> polls remote_unavailable 120
        = Responds \<lparr>poll_status = 200, export_status = Some ''finished''\<rparr>"
proof -
  have "\<forall>a \<in> set [0..<120]. pending (polls remote_unavailable a)"
    by (simp add: remote_unavailable_def unavailable_poll_def pending_def)
  from poll_loop_pending [OF this]
  have loop: "poll_loop rnd env p fl [0..<120] st
      = fail_with p (Export_timeout (path_with_namespace p)) (polled p 120 st)"
    if "env = remote_unavailable" for rnd env p fl st
    using that by simp
  have run: "export_project rnd0 remote_unavailable project_a Download_semaphore st0
      = (Inr False,
         emit (Release Download_semaphore)
           (append_failed project_a (inc_projects_failed
             (emit (Log ERROR (Export_timeout ''grp/a''))
               (polled project_a 120
                 (emit (Request (Export_POST 1)) (emit (Acquire Download_semaphore) st0)))))))"
    by (simp add: export_project_eq export_project_body_def export_project_try_def Let_def
        max_attempts_def loop fail_with_def export_file_of_def emit_def st0_def new_exporter_def
        project_a_def remote_unavailable_def)
  show ?thesis
    unfolding run
    by (simp add: trace_polled emit_def append_failed_def inc_projects_failed_def
        st0_def new_exporter_def project_a_def file_a_def
        remote_unavailable_def unavailable_poll_def)
qed

subsection \<open>A 429 on a status poll or on a page of projects\<close>

text \<open>
  Claim C8, amended. The status poll and the page fetch are not retried with a backoff.
  A page answered with 429 ends get_all_projects: it logs the failure and returns the
  projects accumulated so far, with no further request. A poll answered with 429 is a
  poll like any other whose status is not 200: the loop goes on with its next attempt,
  after its usual sleep of 5 seconds.
\<close>

theorem rate_limited_page_and_poll:
  "(remote k = Responds response \<and> page_status response = 429 \<longrightarrow>
      pages_loop sem remote k page projects st
        = Some (projects,
            emit (Release sem) (emit (Log ERROR (Failed_to_fetch_page page 429))
              (emit (Request (Projects_GET page)) (emit (Acquire sem) st)))))
   \<and> (polls env a = Responds r \<and> poll_status r = 429 \<longrightarrow>
      poll_loop rnd env p fl (a # rest) st
        = poll_loop rnd env p fl rest
            (emit (Request (Export_GET (project_id p))) (emit (Sleep 5) st)))"
  by (simp add: pages_loop.simps Let_def)

theorem rate_limited_page_and_poll_witness:
  "pages_loop Api_semaphore pages_then_429 1 2 [project_a] st0
     = Some ([project_a],
         emit (Release Api_semaphore) (emit (Log ERROR (Failed_to_fetch_page 2 429))
           (emit (Request (Projects_GET 2)) (emit (Acquire Api_semaphore) st0))))
   \<and> poll_loop rnd0 remote_throttled project_a file_a [0, 1] st0
     = poll_loop rnd0 remote_throttled project_a file_a [1]
         (emit (Request (Export_GET 1)) (emit (Sleep 5) st0))"
  using rate_limited_page_and_poll [where remote = pages_then_429 and k = 1 and page = 2
      and response = "\<lparr>page_status = 429, page_projects = None, x_next_page = Absent\<rparr>"
      and sem = Api_semaphore and projects = "[project_a]" and st = st0
      and env = remote_throttled and a = 0 and rest = "[1]" and rnd = rnd0 and p = project_a
      and r = "\<lparr>poll_status = 429, export_status = None\<rparr>" and fl = file_a]
  by (simp add: pages_then_429_def remote_throttled_def throttled_poll_def project_a_def)

text \<open>
  The claim is false as stated. The second page of projects is answered with 429:
  get_all_projects returns the one project of the first page, having sent the two page
  requests and no other, without a sleep and without counting a retry.
\<close>

theorem page_429_not_retried:
  "map_option fst (get_all_projects Api_semaphore pages_then_429 st0) = Some [project_a]
   \<and> map_option (requests_of \<circ> trace \<circ> snd) (get_all_projects Api_semaphore pages_then_429 st0)
        = Some [Projects_GET 1, Projects_GET 2]
   \<and> map_option (sleeps_of \<circ> trace \<circ> snd) (get_all_projects Api_semaphore pages_then_429 st0)
        = Some []
   \<and> map_option (retries \<circ> stats \<circ> snd) (get_all_projects Api_semaphore pages_then_429 st0)
        = Some 0"
  by (simp add: get_all_projects_def pages_loop.simps pages_then_429_def emit_def Let_def
      st0_def new_exporter_def fresh_stats_def)

subsection \<open>Pagination\<close>

lemma pages_loop_last:
  assumes "\<not> continues (remote k)"
  shows "\<exists>st'. pages_loop sem remote k page projects st
           = Some (projects @ page_items (remote k), st')"
  using assms
  by (subst pages_loop.simps)
     (auto simp: continues_def page_items_def Let_def
        split: outcome.splits option.splits header.splits)

lemma pages_loop_next:
  assumes "continues (remote k)"
  shows "\<exists>n st'. pages_loop sem remote k page projects st
           = pages_loop sem remote (k + 1) n (projects @ page_items (remote k)) st'"
  using assms
  by (subst pages_loop.simps)
     (auto simp: continues_def page_items_def Let_def
        split: outcome.splits option.splits header.splits)

lemma pages_loop_run:
  "\<forall>j < n. continues (remote (k + j)) \<Longrightarrow> \<not> continues (remote (k + n)) \<Longrightarrow>
   \<exists>st'. pages_loop sem remote k page projects st
     = Some (projects @ concat (map (page_items \<circ> remote) [k..<Suc (k + n)]), st')"
proof (induction n arbitrary: k page projects st)
  case 0
  then show ?case
    using pages_loop_last [where remote = remote and k = k and sem = sem and page = page
        and projects = projects and st = st] by simp
next
  case (Suc n)
  from Suc.prems(1) have first: "continues (remote k)"
    by (metis add.right_neutral zero_less_Suc)
  from Suc.prems(1) have rest: "\<forall>j < n. continues (remote (Suc k + j))"
    by (metis Suc_less_eq add_Suc_shift)
  from Suc.prems(2) have final: "\<not> continues (remote (Suc k + n))"
    by simp
  obtain page' st1 where step: "pages_loop sem remote k page projects st
      = pages_loop sem remote (Suc k) page' (projects @ page_items (remote k)) st1"
    using pages_loop_next [where remote = remote and k = k and sem = sem and page = page
        and projects = projects and st = st] first by auto
  obtain st' where "pages_loop sem remote (Suc k) page' (projects @ page_items (remote k)) st1
      = Some ((projects @ page_items (remote k))
              @ concat (map (page_items \<circ> remote) [Suc k..<Suc (Suc k + n)]), st')"
    using Suc.IH [OF rest final] by blast
  with step have "pages_loop sem remote k page projects st
      = Some (projects @ concat (map (page_items \<circ> remote) (k # [Suc k..<Suc (Suc k + n)])), st')"
    by simp
  moreover have "k # [Suc k..<Suc (Suc k + n)] = [k..<Suc (k + Suc n)]"
    by (simp add: upt_conv_Cons)
  ultimately show ?case
    by (metis (no_types, lifting))
qed

text \<open>
  Claim C7, amended. When the pages number 0 to n-1 go on to a next page and page n does
  not, get_all_projects returns, and its list is the projects of the pages 0 to n in
  order: the last page counts too when its status is 200 and it has projects but no
  next-page header. A last page whose status is not 200 adds nothing, and the projects
  of the pages before it are returned as the result.
\<close>

theorem get_all_projects_accumulates:
  "((\<forall>j < n. continues (remote j)) \<and> \<not> continues (remote n) \<longrightarrow>
      map_option fst (get_all_projects sem remote st)
        = Some (concat (map (page_items \<circ> remote) [0..<Suc n])))
   \<and> ((\<forall>j < n. continues (remote j)) \<and> remote n = Responds r \<and> page_status r \<noteq> 200 \<longrightarrow>
      map_option fst (get_all_projects sem remote st)
        = Some (concat (map (page_items \<circ> remote) [0..<n])))"
proof -
  have run: "map_option fst (get_all_projects sem remote st)
      = Some (concat (map (page_items \<circ> remote) [0..<Suc n]))"
    if "\<forall>j < n. continues (remote j)" and "\<not> continues (remote n)"
  proof -
    from that have "\<forall>j < n. continues (remote (0 + j))" and "\<not> continues (remote (0 + n))"
      by simp_all
    from pages_loop_run [where remote = remote and k = 0 and n = n and sem = sem
        and page = 1 and projects = "[]" and st = st] this
    obtain st' where "pages_loop sem remote 0 1 [] st
        = Some (concat (map (page_items \<circ> remote) [0..<Suc n]), st')"
      by auto
    then show ?thesis
      by (simp add: get_all_projects_def)
  qed
  have stop: "map_option fst (get_all_projects sem remote st)
      = Some (concat (map (page_items \<circ> remote) [0..<n]))"
    if "\<forall>j < n. continues (remote j)" and "remote n = Responds r" and "page_status r \<noteq> 200"
  proof -
    from that have "\<not> continues (remote n)" and "page_items (remote n) = []"
      by (simp_all add: continues_def page_items_def)
    with run that(1) show ?thesis
      by simp
  qed
  from run stop show ?thesis
    by blast
qed

theorem get_all_projects_accumulates_witness:
  "map_option fst (get_all_projects Api_semaphore two_pages st0) = Some [project_a, project_b]
   \<and> map_option fst (get_all_projects Api_semaphore pages_then_429 st0) = Some [project_a]"
proof -
  have "map_option fst (get_all_projects Api_semaphore two_pages st0)
      = Some (concat (map (page_items \<circ> two_pages) [0..<Suc 1]))"
    using get_all_projects_accumulates [where remote = two_pages and n = 1
        and sem = Api_semaphore and st = st0]
    by (simp add: two_pages_def continues_def)
  moreover have "map_option fst (get_all_projects Api_semaphore pages_then_429 st0)
      = Some (concat (map (page_items \<circ> pages_then_429) [0..<1]))"
    using get_all_projects_accumulates [where remote = pages_then_429 and n = 1
        and r = "\<lparr>page_status = 429, page_projects = None, x_next_page = Absent\<rparr>"
        and sem = Api_semaphore and st = st0]
    by (simp add: pages_then_429_def continues_def)
  ultimately show ?thesis
    by (simp add: two_pages_def pages_then_429_def page_items_def upt_conv_Cons)
qed

text \<open>
  The claim is false as stated. The first page is the last one: it has two projects and
  no next-page header. The sum of the sizes of the pages before the last is 0, and
  get_all_projects returns the two projects.
\<close>

theorem last_page_is_accumulated:
  "\<not> continues (single_page 0)
   \<and> map_option fst (get_all_projects Api_semaphore single_page st0)
        = Some [project_a, project_b]
   \<and> map_option (projects_count \<circ> snd) (get_all_projects Api_semaphore single_page st0)
        = Some 2
   \<and> length (concat (map (page_items \<circ> single_page) [0..<0])) = 0"
  by (simp add: continues_def single_page_def get_all_projects_def pages_loop.simps Let_def
      emit_def)

subsection \<open>Resumable download\<close>

lemma download_export_writes:
  assumes "remote (fst (download_plan st fl)) = Responds r"
    and "status r = 200 \<or> status r = 206"
    and "\<not> stream_breaks r"
    and "content_length r \<noteq> Malformed" and "content_length r \<noteq> Empty"
  shows "fst (download_export rnd remote pid path fl st) = Inr True
    \<and> files (snd (download_export rnd remote pid path fl st)) fl
        = Some ((case files st fl of None \<Rightarrow> [] | Some old \<Rightarrow> old) @ concat (chunks r))
    \<and> requests_of (trace (snd (download_export rnd remote pid path fl st)))
        = requests_of (trace st) @ [Download_GET pid (fst (download_plan st fl))]"
  using assms
  by (cases "files st fl"; cases "content_length r")
     (auto simp: download_export_eq download_export_body_def download_plan_def write_chunks_def
        emit_def add_total_size_def Let_def)

text \<open>
  What download_export does when the remote honours the Range header. When the target
  file exists, of size S, the download request carries the Range offset S and the file
  is opened in append mode; when it does not exist, the request has no Range header
  and the file is opened in write mode. When the file holds the first S bytes of a
  content of T > S bytes and the remote answers the request from offset S with status
  206 and the bytes from S on, download_export returns True and the file holds exactly
  the T bytes of the content. A download into a file that does not exist, answered with
  the whole content, leaves exactly that content.
\<close>

lemma resumable_download:
  "(files st fl = Some old \<longrightarrow>
      download_plan st fl = (Some (int (length old)), Mode_ab, int (length old)))
   \<and> (files st fl = None \<longrightarrow> download_plan st fl = (None, Mode_wb, 0))
   \<and> (files st fl = Some (take s content) \<and> s < length content
        \<and> remote (Some (int s)) = Responds r \<and> status r = 206
        \<and> concat (chunks r) = drop s content \<and> \<not> stream_breaks r
        \<and> content_length r \<noteq> Malformed \<and> content_length r \<noteq> Empty \<longrightarrow>
      fst (download_export rnd remote pid path fl st) = Inr True
      \<and> files (snd (download_export rnd remote pid path fl st)) fl = Some content
      \<and> requests_of (trace (snd (download_export rnd remote pid path fl st)))
          = requests_of (trace st) @ [Download_GET pid (Some (int s))])
   \<and> (files st fl = None
        \<and> remote None = Responds r \<and> status r = 200
        \<and> concat (chunks r) = content \<and> \<not> stream_breaks r
        \<and> content_length r \<noteq> Malformed \<and> content_length r \<noteq> Empty \<longrightarrow>
      fst (download_export rnd remote pid path fl st) = Inr True
      \<and> files (snd (download_export rnd remote pid path fl st)) fl = Some content
      \<and> requests_of (trace (snd (download_export rnd remote pid path fl st)))
          = requests_of (trace st) @ [Download_GET pid None])"
proof -
  have resume: "fst (download_export rnd remote pid path fl st) = Inr True
      \<and> files (snd (download_export rnd remote pid path fl st)) fl = Some content
      \<and> requests_of (trace (snd (download_export rnd remote pid path fl st)))
          = requests_of (trace st) @ [Download_GET pid (Some (int s))]"
    if "files st fl = Some (take s content)" and "s < length content"
      and "remote (Some (int s)) = Responds r" and "status r = 206"
      and "concat (chunks r) = drop s content" and "\<not> stream_breaks r"
      and "content_length r \<noteq> Malformed" and "content_length r \<noteq> Empty"
  proof -
    from that(1,2) have plan: "fst (download_plan st fl) = Some (int s)"
      by (simp add: download_plan_def)
    with that(3) have "remote (fst (download_plan st fl)) = Responds r"
      by simp
    from download_export_writes [where remote = remote and st = st and fl = fl and r = r
        and rnd = rnd and pid = pid and path = path] this that plan show ?thesis
      by simp
  qed
  have fresh: "fst (download_export rnd remote pid path fl st) = Inr True
      \<and> files (snd (download_export rnd remote pid path fl st)) fl = Some content
      \<and> requests_of (trace (snd (download_export rnd remote pid path fl st)))
          = requests_of (trace st) @ [Download_GET pid None]"
    if "files st fl = None" and "remote None = Responds r" and "status r = 200"
      and "concat (chunks r) = content" and "\<not> stream_breaks r"
      and "content_length r \<noteq> Malformed" and "content_length r \<noteq> Empty"
  proof -
    from that(1) have plan: "fst (download_plan st fl) = None"
      by (simp add: download_plan_def)
    with that(2) have "remote (fst (download_plan st fl)) = Responds r"
      by simp
    from download_export_writes [where remote = remote and st = st and fl = fl and r = r
        and rnd = rnd and pid = pid and path = path] this that plan show ?thesis
      by simp
  qed
  have plans: "(files st fl = Some old \<longrightarrow>
      download_plan st fl = (Some (int (length old)), Mode_ab, int (length old)))
    \<and> (files st fl = None \<longrightarrow> download_plan st fl = (None, Mode_wb, 0))"
    by (simp add: download_plan_def)
  from plans resume fresh show ?thesis
    by blast
qed

lemma resumable_download_example:
  "download_plan st_partial file_a = (Some 2, Mode_ab, 2)
   \<and> download_plan st0 file_a = (None, Mode_wb, 0)
   \<and> fst (download_export rnd0 (range_server archive) 1 ''grp/a'' file_a st_partial) = Inr True
   \<and> files (snd (download_export rnd0 (range_server archive) 1 ''grp/a'' file_a st_partial)) file_a
        = Some archive
   \<and> requests_of (trace (snd (download_export rnd0 (range_server archive) 1 ''grp/a'' file_a
        st_partial))) = [Download_GET 1 (Some 2)]
   \<and> files (snd (download_export rnd0 (range_server archive) 1 ''grp/a'' file_a st0)) file_a
        = Some archive"
proof -
  have partial: "files st_partial file_a = Some (take 2 archive)"
    by (simp add: st_partial_def)
  have none: "files st0 file_a = None"
    by (simp add: st0_def new_exporter_def)
  have no_requests: "requests_of (trace st_partial) = []"
    by (simp add: st_partial_def st0_def new_exporter_def)
  note resumed = resumable_download [where st = st_partial and fl = file_a
      and old = "take 2 archive" and s = 2 and content = archive
      and remote = "range_server archive" and rnd = rnd0 and pid = 1 and path = "''grp/a''"
      and r = "\<lparr>status = 206, content_length = Number 3, chunks = [drop 2 archive],
                  stream_breaks = False\<rparr>"]
  note started = resumable_download [where st = st0 and fl = file_a
      and content = archive
      and remote = "range_server archive" and rnd = rnd0 and pid = 1 and path = "''grp/a''"
      and r = "\<lparr>status = 200, content_length = Number 5, chunks = [archive],
                  stream_breaks = False\<rparr>"]
  from resumed started partial none no_requests show ?thesis
    by (simp add: range_server_def archive_def)
qed

text \<open>
  Claim C4, evaluated where the code departs from it. The target file holds the first 2
  bytes of an archive of 5, so the request carries the Range offset 2 and the file is
  opened in append mode. The remote answers with status 200 and the whole archive.
  download_export accepts status 200, appends the body to the file and returns True,
  logging a resumed and completed download: the file has 7 bytes, its first two bytes
  followed by the whole archive, where the claim says exactly 5.
\<close>

theorem resume_appends_whole_body:
  "download_plan st_partial file_a = (Some 2, Mode_ab, 2)
   \<and> length archive = 5
   \<and> fst (download_export rnd0 (full_body_server archive) 1 ''grp/a'' file_a st_partial)
        = Inr True
   \<and> requests_of (trace (snd (download_export rnd0 (full_body_server archive) 1 ''grp/a''
        file_a st_partial))) = [Download_GET 1 (Some 2)]
   \<and> logs_of (trace (snd (download_export rnd0 (full_body_server archive) 1 ''grp/a''
        file_a st_partial))) = [Resumed_and_completed ''grp/a'']
   \<and> files (snd (download_export rnd0 (full_body_server archive) 1 ''grp/a'' file_a
        st_partial)) file_a = Some (take 2 archive @ archive)
   \<and> map_option length
        (files (snd (download_export rnd0 (full_body_server archive) 1 ''grp/a'' file_a
           st_partial)) file_a) = Some 7"
  by (simp add: download_plan_def st_partial_def st0_def new_exporter_def
      archive_def download_export_eq download_export_body_def full_body_server_def
      write_chunks_def emit_def add_total_size_def Let_def)

subsection \<open>The semaphore variables of run_export\<close>

lemma validate_connection_effect:
  "\<exists>evs. validate_connection inst st = (connection_ok inst, st\<lparr>trace := trace st @ evs\<rparr>)
     \<and> list_all is_validation_event evs"
proof (cases "user inst")
  case (Raises e)
  then show ?thesis
    by (auto simp: validate_connection_def connection_ok_def emit_def Let_def
        intro!: exI [of _ "[Request User_GET, Log ERROR (Connection_failed e)]"])
next
  case (Responds response)
  show ?thesis
  proof (cases "api_status response = 200 \<and> json_ok response")
    case False
    then show ?thesis
      using Responds
      by (cases "api_status response = 200")
         (auto simp: validate_connection_def connection_ok_def emit_def Let_def
           intro: exI [of _ "[Request User_GET, Log ERROR (Connection_failed ClientError)]"]
             exI [of _ "[Request User_GET,
               Log ERROR (Authentication_failed (api_status response))]"])
  next
    case True
    show ?thesis
    proof (cases "version inst")
      case (Raises e)
      then show ?thesis
        using True Responds
        by (auto simp: validate_connection_def connection_ok_def emit_def Let_def
            intro!: exI [of _ "[Request User_GET, Request Version_GET,
              Log ERROR (Connection_failed e)]"])
    next
      case ver: (Responds ver_response)
      show ?thesis
      proof (cases "api_status ver_response = 200 \<and> \<not> json_ok ver_response")
        case True
        then show ?thesis
          using \<open>api_status response = 200 \<and> json_ok response\<close> Responds ver
          by (auto simp: validate_connection_def connection_ok_def emit_def Let_def
              intro!: exI [of _ "[Request User_GET, Request Version_GET,
                Log ERROR (Connection_failed ClientError)]"])
      next
        case False
        then show ?thesis
          using \<open>api_status response = 200 \<and> json_ok response\<close> Responds ver
          by (auto simp: validate_connection_def connection_ok_def emit_def Let_def
              intro!: exI [of _ "[Request User_GET, Request Version_GET,
                Log SUCCESS Connected]"])
      qed
    qed
  qed
qed

lemma export_events_append [simp]:
  "export_events (xs @ ys) = export_events xs @ export_events ys"
  by (simp add: export_events_def)

lemma export_events_validation:
  "list_all is_validation_event evs \<Longrightarrow> export_events evs = []"
  by (induction evs) (simp_all add: export_events_def)

lemma run_export_loop_unbound:
  assumes "\<exists>inst \<in> set insts. connection_ok inst"
  shows "\<exists>tr'. run_export_loop rnd insts \<lparr>download_semaphore = None, api_semaphore = None\<rparr> fs tr
      = Some (Inl UnboundLocalError, \<lparr>download_semaphore = None, api_semaphore = None\<rparr>, fs, tr')
    \<and> export_events tr' = export_events tr"
  using assms
proof (induction insts arbitrary: tr)
  case Nil
  then show ?case by simp
next
  case (Cons inst rest)
  obtain evs where valid: "validate_connection inst (new_exporter (instance_dir inst) fs tr)
      = (connection_ok inst, (new_exporter (instance_dir inst) fs tr)
          \<lparr>trace := trace (new_exporter (instance_dir inst) fs tr) @ evs\<rparr>)"
    and evs: "list_all is_validation_event evs"
    using validate_connection_effect by blast
  show ?case
  proof (cases "connection_ok inst")
    case True
    then show ?thesis
      using valid evs by (simp add: new_exporter_def export_events_validation)
  next
    case False
    with Cons.prems have "\<exists>i \<in> set rest. connection_ok i"
      by auto
    from Cons.IH [OF this, of "tr @ evs"] obtain tr' where
      "run_export_loop rnd rest \<lparr>download_semaphore = None, api_semaphore = None\<rparr> fs (tr @ evs)
        = Some (Inl UnboundLocalError, \<lparr>download_semaphore = None, api_semaphore = None\<rparr>, fs, tr')"
      and "export_events tr' = export_events (tr @ evs)"
      by blast
    then show ?thesis
      using False valid evs by (simp add: new_exporter_def export_events_validation)
  qed
qed

text \<open>
  Claim C10. run_export reads its local variable api_semaphore for the call of
  get_all_projects before the line that assigns it. In every run with a selected
  instance whose connection validates, run_export ends with UnboundLocalError at the
  first such instance: both semaphore variables are still unbound, and the run has
  produced no event of a page fetch or of an export job, only those of the connection
  checks.
\<close>

theorem run_export_unbound_local:
  "(\<exists>inst \<in> set insts. connection_ok inst) \<longrightarrow>
     map_option fst (run_export rnd insts fs tr) = Some (Inl UnboundLocalError)
     \<and> map_option (fst \<circ> snd) (run_export rnd insts fs tr)
         = Some \<lparr>download_semaphore = None, api_semaphore = None\<rparr>
     \<and> map_option (export_events \<circ> snd \<circ> snd \<circ> snd) (run_export rnd insts fs tr)
         = Some (export_events tr)"
proof
  assume "\<exists>inst \<in> set insts. connection_ok inst"
  from run_export_loop_unbound [OF this, of rnd fs tr] show
    "map_option fst (run_export rnd insts fs tr) = Some (Inl UnboundLocalError)
     \<and> map_option (fst \<circ> snd) (run_export rnd insts fs tr)
         = Some \<lparr>download_semaphore = None, api_semaphore = None\<rparr>
     \<and> map_option (export_events \<circ> snd \<circ> snd \<circ> snd) (run_export rnd insts fs tr)
         = Some (export_events tr)"
    by (auto simp: run_export_def)
qed

theorem run_export_unbound_local_witness:
  "connection_ok instance_up
   \<and> map_option fst (run_export rnd0 [instance_down, instance_up, instance_up] Map.empty [])
       = Some (Inl UnboundLocalError)
   \<and> map_option (export_events \<circ> snd \<circ> snd \<circ> snd)
       (run_export rnd0 [instance_down, instance_up, instance_up] Map.empty []) = Some []
   \<and> map_option (requests_of \<circ> snd \<circ> snd \<circ> snd)
       (run_export rnd0 [instance_down, instance_up, instance_up] Map.empty [])
       = Some [User_GET, User_GET, Version_GET]"
proof -
  let ?insts = "[instance_down, instance_up, instance_up]"
  have ok: "connection_ok instance_up"
    by (simp add: connection_ok_def validate_connection_def instance_up_def Let_def)
  then have ex: "\<exists>inst \<in> set ?insts. connection_ok inst"
    by simp
  note main = run_export_unbound_local [of ?insts rnd0 Map.empty "[]", THEN mp, OF ex]
  have nil: "export_events [] = []"
    by (simp add: export_events_def)
  from main have raised: "map_option fst (run_export rnd0 ?insts Map.empty [])
      = Some (Inl UnboundLocalError)"
    by blast
  from main have "map_option (export_events \<circ> snd \<circ> snd \<circ> snd)
      (run_export rnd0 ?insts Map.empty []) = Some (export_events [])"
    by blast
  then have quiet: "map_option (export_events \<circ> snd \<circ> snd \<circ> snd)
      (run_export rnd0 ?insts Map.empty []) = Some []"
    unfolding nil .
  have asked: "map_option (requests_of \<circ> snd \<circ> snd \<circ> snd)
      (run_export rnd0 ?insts Map.empty []) = Some [User_GET, User_GET, Version_GET]"
    by (simp add: run_export_def validate_connection_def instance_up_def instance_down_def
        new_exporter_def emit_def Let_def)
  from ok raised quiet asked show ?thesis
    by blast
qed

subsection \<open>The events of one export job\<close>

lemma grows_iff:
  "grows st st' \<longleftrightarrow>
     (\<exists>evs. trace st' = trace st @ evs \<and> list_all (\<lambda>e. \<not> is_semaphore_event e) evs)"
proof
  assume "grows st st'"
  then have "trace st' = trace st @ drop (length (trace st)) (trace st')"
    and "list_all (\<lambda>e. \<not> is_semaphore_event e) (drop (length (trace st)) (trace st'))"
    by (simp_all add: grows_def) (metis append_take_drop_id)
  then show "\<exists>evs. trace st' = trace st @ evs \<and> list_all (\<lambda>e. \<not> is_semaphore_event e) evs"
    by blast
next
  assume "\<exists>evs. trace st' = trace st @ evs \<and> list_all (\<lambda>e. \<not> is_semaphore_event e) evs"
  then show "grows st st'"
    by (auto simp: grows_def)
qed

lemma grows_refl [simp]: "grows st st"
  by (simp add: grows_iff)

lemma grows_emit:
  "grows st st' \<Longrightarrow> \<not> is_semaphore_event e \<Longrightarrow> grows st (emit e st')"
  by (auto simp: grows_iff emit_def)

lemma grows_update:
  "grows st st' \<Longrightarrow> grows st (inc_projects_exported st')"
  "grows st st' \<Longrightarrow> grows st (inc_projects_failed st')"
  "grows st st' \<Longrightarrow> grows st (append_failed p st')"
  "grows st st' \<Longrightarrow> grows st (add_total_size n st')"
  "grows st st' \<Longrightarrow> grows st (write_chunks fl mode cs st')"
  by (simp_all add: grows_iff inc_projects_exported_def inc_projects_failed_def
      append_failed_def add_total_size_def write_chunks_def Let_def)

lemma grows_trans: "grows st st' \<Longrightarrow> grows st' st'' \<Longrightarrow> grows st st''"
  by (auto simp: grows_iff)

lemma grows_download_body: "grows st (snd (download_export_body remote pid path fl st))"
  by (auto simp: download_export_body_def Let_def
      intro!: grows_emit grows_update split: prod.splits outcome.splits header.splits)

lemma grows_finish_download:
  "grows st st1 \<Longrightarrow> grows st (snd (finish_download rnd env p fl st1))"
  using grows_download_body [of st1 "download env" "project_id p" "path_with_namespace p" fl]
  by (auto simp: finish_download_def download_export_eq on_exception_def
      intro!: grows_emit grows_update intro: grows_trans split: prod.splits sum.splits)

lemma grows_poll_loop:
  "grows st st1 \<Longrightarrow> grows st (snd (poll_loop rnd env p fl as st1))"
proof (induction as arbitrary: st1)
  case Nil
  then show ?case
    by (auto simp: fail_with_def intro!: grows_emit grows_update)
next
  case (Cons a as)
  let ?st2 = "emit (Request (Export_GET (project_id p))) (emit (Sleep 5) st1)"
  from Cons.prems have polled: "grows st ?st2"
    by (auto intro!: grows_emit)
  show ?case
    using Cons.IH [OF polled] grows_finish_download [OF polled] polled
    by (auto simp: Let_def on_exception_def fail_with_def
        intro!: grows_emit grows_update split: outcome.splits option.splits)
qed

lemma grows_export_project_try: "grows st (snd (export_project_try rnd env p st))"
proof -
  let ?st1 = "emit (Request (Export_POST (project_id p))) st"
  have posted: "grows st ?st1"
    by (auto intro!: grows_emit)
  show ?thesis
    using grows_poll_loop [OF posted] posted
    by (auto simp: export_project_try_def Let_def on_exception_def fail_with_def
        intro!: grows_emit grows_update split: outcome.splits)
qed

lemma export_project_bracketed:
  "bracketed sem (job_events (export_project rnd env p sem) st)"
proof -
  let ?st0 = "emit (Acquire sem) st"
  obtain r st1 where run: "export_project_try rnd env p ?st0 = (r, st1)"
    by (cases "export_project_try rnd env p ?st0")
  from grows_export_project_try [of ?st0 rnd env p] run have g: "grows ?st0 st1"
    by simp
  define mid where "mid = drop (length (trace ?st0)) (trace st1)"
  from g have "trace st1 = trace ?st0 @ mid" and quiet: "list_all (\<lambda>e. \<not> is_semaphore_event e) mid"
    by (auto simp: grows_iff mid_def)
  then have "trace st1 = trace st @ Acquire sem # mid"
    by (simp add: emit_def)
  then have "job_events (export_project rnd env p sem) st = Acquire sem # mid @ [Release sem]"
    using run by (simp add: job_events_def export_project_eq export_project_body_def emit_def)
  with quiet show ?thesis
    by (simp add: bracketed_def)
qed


subsection \<open>Tasks under the semaphore\<close>

lemma bracketed_shape:
  "bracketed sem evs \<longleftrightarrow>
     (\<exists>mid. evs = Acquire sem # mid @ [Release sem]
        \<and> list_all (\<lambda>e. \<not> is_semaphore_event e) mid)"
proof
  assume "bracketed sem evs"
  then obtain rest where "evs = Acquire sem # rest" and "rest \<noteq> []"
    and "last rest = Release sem" and "list_all (\<lambda>e. \<not> is_semaphore_event e) (butlast rest)"
    by (auto simp: bracketed_def split: list.splits)
  then have "evs = Acquire sem # butlast rest @ [Release sem]"
    by (metis append_butlast_last_id)
  with \<open>list_all (\<lambda>e. \<not> is_semaphore_event e) (butlast rest)\<close>
  show "\<exists>mid. evs = Acquire sem # mid @ [Release sem]
      \<and> list_all (\<lambda>e. \<not> is_semaphore_event e) mid"
    by blast
next
  assume "\<exists>mid. evs = Acquire sem # mid @ [Release sem]
      \<and> list_all (\<lambda>e. \<not> is_semaphore_event e) mid"
  then show "bracketed sem evs"
    by (auto simp: bracketed_def)
qed

lemma quiet_counts:
  assumes "list_all (\<lambda>e. \<not> is_semaphore_event e) mid"
  shows "filter (\<lambda>e. e = Acquire sem) mid = []" and "filter (\<lambda>e. e = Release sem) mid = []"
  using assms by (induction mid) auto

lemma orderly_next:
  assumes "orderly sem t" and "pending_events t = e # es"
  shows "(e = Acquire sem \<longrightarrow> performed t = [] \<and> es \<noteq> [])
    \<and> (e = Release sem \<longrightarrow> performed t \<noteq> [] \<and> es = [])
    \<and> (e \<noteq> Acquire sem \<and> e \<noteq> Release sem \<longrightarrow> performed t \<noteq> [] \<and> es \<noteq> [])"
proof -
  from assms obtain mid where whole: "performed t @ e # es = Acquire sem # mid @ [Release sem]"
    and quiet: "list_all (\<lambda>e. \<not> is_semaphore_event e) mid"
    by (auto simp: orderly_def bracketed_shape)
  show ?thesis
  proof (cases "performed t")
    case Nil
    with whole show ?thesis by auto
  next
    case (Cons a ps)
    with whole have tail: "ps @ e # es = mid @ [Release sem]"
      by simp
    show ?thesis
    proof (cases es rule: rev_cases)
      case Nil
      with tail have "e = Release sem"
        by simp
      with Cons Nil show ?thesis by simp
    next
      case (snoc es' x)
      with tail have "ps @ e # es' = mid"
        by (metis append_Cons append_assoc butlast_snoc)
      then have "e \<in> set mid"
        by auto
      with quiet have "\<not> is_semaphore_event e"
        by (simp add: list_all_iff)
      then have "e \<noteq> Acquire sem" and "e \<noteq> Release sem"
        by auto
      with Cons snoc show ?thesis by simp
    qed
  qed
qed

lemma orderly_slots:
  assumes "orderly sem t"
  shows "slots_held sem t = (if performed t = [] \<or> pending_events t = [] then 0 else 1)"
proof -
  from assms obtain mid where
    whole: "performed t @ pending_events t = Acquire sem # mid @ [Release sem]"
    and quiet: "list_all (\<lambda>e. \<not> is_semaphore_event e) mid"
    by (auto simp: orderly_def bracketed_shape)
  show ?thesis
  proof (cases "performed t")
    case Nil
    then show ?thesis by (simp add: slots_held_def)
  next
    case (Cons a ps)
    with whole have a: "a = Acquire sem" and tail: "ps @ pending_events t = mid @ [Release sem]"
      by simp_all
    show ?thesis
    proof (cases "pending_events t" rule: rev_cases)
      case Nil
      with tail have "ps = mid @ [Release sem]" by simp
      with Cons a Nil show ?thesis
        by (simp add: slots_held_def quiet_counts [OF quiet])
    next
      case (snoc qs x)
      with tail have "ps @ qs = mid"
        by (metis append_assoc butlast_snoc)
      with quiet have "list_all (\<lambda>e. \<not> is_semaphore_event e) ps"
        by auto
      with Cons a snoc show ?thesis
        by (simp add: slots_held_def quiet_counts)
    qed
  qed
qed

lemma fire_keeps_balance:
  assumes "fire sem i s = Some s'" and "\<forall>t \<in> set (tasks s). orderly sem t"
  shows "(\<forall>t \<in> set (tasks s'). orderly sem t)
    \<and> permits s' + holders sem s' = permits s + holders sem s"
proof -
  from assms(1) have i: "i < length (tasks s)"
    by (auto simp: fire_def split: if_splits)
  let ?t = "tasks s ! i"
  from assms(1) i obtain e es where next_event: "pending_events ?t = e # es"
    by (auto simp: fire_def split: list.splits)
  let ?t' = "\<lparr>performed = performed ?t @ [e], pending_events = es\<rparr>"
  from i assms(2) have t: "orderly sem ?t"
    by simp
  then have t': "orderly sem ?t'"
    using next_event by (simp add: orderly_def)
  have tasks': "tasks s' = (tasks s)[i := ?t']"
    using assms(1) i next_event by (auto simp: fire_def advance_def Let_def split: if_splits)
  have all': "\<forall>u \<in> set (tasks s'). orderly sem u"
    using assms(2) t' tasks' by (metis insert_iff set_update_subset_insert subsetD)
  have sum': "holders sem s' = holders sem s + slots_held sem ?t' - slots_held sem ?t"
    using i by (simp add: holders_def tasks' map_update sum_list_update)
  have le: "slots_held sem ?t \<le> holders sem s"
    using i elem_le_sum_list [of i "map (slots_held sem) (tasks s)"] by (simp add: holders_def)
  note shape = orderly_next [OF t next_event]
  note before = orderly_slots [OF t]
  note after = orderly_slots [OF t']
  have "permits s' + holders sem s' = permits s + holders sem s"
  proof (cases "e = Acquire sem")
    case True
    with assms(1) i next_event have "permits s > 0" and "permits s' = permits s - 1"
      by (auto simp: fire_def advance_def Let_def split: if_splits)
    with True shape before after sum' next_event show ?thesis
      by simp
  next
    case False
    show ?thesis
    proof (cases "e = Release sem")
      case True
      with assms(1) i next_event have "permits s' = permits s + 1"
        by (auto simp: fire_def advance_def Let_def split: if_splits)
      with True shape before after sum' le next_event show ?thesis
        by simp
    next
      case other: False
      with False assms(1) i next_event have "permits s' = permits s"
        by (auto simp: fire_def advance_def Let_def split: if_splits)
      with False other shape before after sum' le next_event show ?thesis
        by simp
    qed
  qed
  with all' show ?thesis
    by simp
qed

lemma run_keeps_balance:
  assumes "run sem schedule s = Some s'" and "\<forall>t \<in> set (tasks s). orderly sem t"
  shows "(\<forall>t \<in> set (tasks s'). orderly sem t)
    \<and> permits s' + holders sem s' = permits s + holders sem s"
  using assms
proof (induction schedule arbitrary: s)
  case Nil
  then show ?case by simp
next
  case (Cons i schedule)
  from Cons.prems(1) obtain s1 where first: "fire sem i s = Some s1"
    and rest: "run sem schedule s1 = Some s'"
    by (auto split: option.splits)
  from fire_keeps_balance [OF first Cons.prems(2)] Cons.IH [OF rest] show ?case
    by simp
qed

lemma start_balance:
  assumes "\<forall>evs \<in> set jobs. bracketed sem evs"
  shows "(\<forall>t \<in> set (tasks (start c jobs)). orderly sem t)"
    and "holders sem (start c jobs) = 0"
    and "permits (start c jobs) = c"
  using assms by (auto simp: start_def orderly_def holders_def slots_held_def)

text \<open>
  Claim C9. The jobs of a batch are export_project calls on the download semaphore,
  each from whatever state and remote it finds, and the semaphore starts with c slots.
  After any schedule of steps, the slots held by the jobs and the free slots add up to
  c, so at most c jobs hold a slot; and a job holds exactly one slot from its first
  event to its last, that is through its trigger, its polls with their sleeps and its
  download, and none before or after.
\<close>

theorem download_slots_bounded:
  "(\<forall>evs \<in> set jobs. \<exists>rnd env p st.
        evs = job_events (export_project rnd env p Download_semaphore) st)
   \<and> run Download_semaphore schedule (start c jobs) = Some s \<longrightarrow>
     holders Download_semaphore s \<le> c
     \<and> permits s + holders Download_semaphore s = c
     \<and> (\<forall>t \<in> set (tasks s).
          bracketed Download_semaphore (performed t @ pending_events t)
          \<and> slots_held Download_semaphore t
              = (if performed t = [] \<or> pending_events t = [] then 0 else 1))"
proof
  assume a: "(\<forall>evs \<in> set jobs. \<exists>rnd env p st.
        evs = job_events (export_project rnd env p Download_semaphore) st)
   \<and> run Download_semaphore schedule (start c jobs) = Some s"
  have "\<forall>evs \<in> set jobs. bracketed Download_semaphore evs"
  proof
    fix evs
    assume "evs \<in> set jobs"
    with a obtain rnd env p st where
      "evs = job_events (export_project rnd env p Download_semaphore) st"
      by blast
    then show "bracketed Download_semaphore evs"
      by (simp add: export_project_bracketed)
  qed
  note init = start_balance [OF this, of c]
  from a have "run Download_semaphore schedule (start c jobs) = Some s"
    by simp
  from run_keeps_balance [OF this init(1)] init(2,3)
  have all: "\<forall>t \<in> set (tasks s). orderly Download_semaphore t"
    and sum: "permits s + holders Download_semaphore s = c"
    by simp_all
  from all have "\<forall>t \<in> set (tasks s).
      bracketed Download_semaphore (performed t @ pending_events t)
      \<and> slots_held Download_semaphore t
          = (if performed t = [] \<or> pending_events t = [] then 0 else 1)"
    using orderly_slots by (auto simp: orderly_def)
  with sum show "holders Download_semaphore s \<le> c
     \<and> permits s + holders Download_semaphore s = c
     \<and> (\<forall>t \<in> set (tasks s).
          bracketed Download_semaphore (performed t @ pending_events t)
          \<and> slots_held Download_semaphore t
              = (if performed t = [] \<or> pending_events t = [] then 0 else 1))"
    by simp
qed


lemma three_jobs_events:
  "three_jobs =
     [[Acquire Download_semaphore, Request (Export_POST 1),
       Log ERROR (Exception_exporting ''grp/a'' (ClientResponseError 429)),
       Release Download_semaphore],
      [Acquire Download_semaphore, Request (Export_POST 2),
       Log ERROR (Exception_exporting ''grp/b'' (ClientResponseError 429)),
       Release Download_semaphore],
      [Acquire Download_semaphore, Request (Export_POST 3),
       Log ERROR (Exception_exporting ''grp/c'' (ClientResponseError 429)),
       Release Download_semaphore]]"
  by (simp add: three_jobs_def job_events_def eval_defs example_defs project_c_def)

theorem download_slots_bounded_witness:
  "map_option permits (run Download_semaphore [0, 1, 0] (start 2 three_jobs)) = Some 0
   \<and> map_option (holders Download_semaphore)
        (run Download_semaphore [0, 1, 0] (start 2 three_jobs)) = Some 2
   \<and> Option.bind (run Download_semaphore [0, 1, 0] (start 2 three_jobs))
        (fire Download_semaphore 2) = None
   \<and> map_option permits (run Download_semaphore [0, 1, 0, 0, 0, 2] (start 2 three_jobs))
        = Some 0"
proof -
  have jobs: "\<forall>evs \<in> set three_jobs. \<exists>rnd env p st.
      evs = job_events (export_project rnd env p Download_semaphore) st"
    by (simp add: three_jobs_def) blast
  obtain s where run: "run Download_semaphore [0, 1, 0] (start 2 three_jobs) = Some s"
    and free: "permits s = 0"
    and blocked: "fire Download_semaphore 2 s = None"
    by (simp add: three_jobs_events start_def fire_def advance_def)
  from download_slots_bounded [of three_jobs "[0, 1, 0]" 2 s] jobs run
  have "permits s + holders Download_semaphore s = 2"
    by blast
  with free have held: "holders Download_semaphore s = 2"
    by simp
  have later: "map_option permits
      (run Download_semaphore [0, 1, 0, 0, 0, 2] (start 2 three_jobs)) = Some 0"
    by (simp add: three_jobs_events start_def fire_def advance_def)
  from run free held blocked later show ?thesis
    by simp
qed

subsection \<open>The decorator on an error that reaches it\<close>

text \<open>
  What the wrapper does when the decorated coroutine does raise the error of a 429: it
  calls it again after a sleep of backoff * 2^x + random, counting a retry each time,
  and after n_retries retries it raises the error. The coroutines decorated in this
  file never let the error out, as shown above.
\<close>

lemma wrapper_loop_always_429:
  "int x \<le> n \<Longrightarrow>
   fst (wrapper_loop n b rnd (always_429 r) x st) = Inl (ClientResponseError 429)
   \<and> requests_of (trace (snd (wrapper_loop n b rnd (always_429 r) x st)))
        = requests_of (trace st) @ replicate (Suc (nat n - x)) r
   \<and> sleeps_of (trace (snd (wrapper_loop n b rnd (always_429 r) x st)))
        = sleeps_of (trace st) @ map (\<lambda>k. b * 2 ^ k + rnd k) [x..<nat n]
   \<and> retries (stats (snd (wrapper_loop n b rnd (always_429 r) x st)))
        = retries (stats st) + (n - int x)"
proof (induction "nat n - x" arbitrary: x st)
  case 0
  then have last: "\<not> int x < n" and eq: "n = int x"
    by simp_all
  have stop: "wrapper_loop n b rnd (always_429 r) x st
      = (Inl (ClientResponseError 429),
         emit (Log ERROR Max_retries_exceeded) (emit (Request r) st))"
    using last by (subst wrapper_loop.simps) (simp add: always_429_def)
  show ?case
    unfolding stop using eq by (simp add: emit_def)
next
  case (Suc m)
  then have less: "int x < n" and m: "m = nat n - Suc x" and le: "int (Suc x) \<le> n"
    by simp_all
  let ?sleep = "b * 2 ^ x + rnd x"
  let ?st4 = "emit (Sleep ?sleep) (inc_retries (emit (Log WARN (Rate_limited_retrying ?sleep))
      (emit (Request r) st)))"
  have step: "wrapper_loop n b rnd (always_429 r) x st
      = wrapper_loop n b rnd (always_429 r) (Suc x) ?st4"
    using less by (subst wrapper_loop.simps) (simp add: always_429_def Let_def)
  have upt: "[x..<nat n] = x # [Suc x..<nat n]"
    using less by (simp add: upt_conv_Cons)
  have count: "Suc (nat n - x) = Suc (Suc (nat n - Suc x))"
    using less by simp
  from Suc.hyps(1) [OF m le, of ?st4] show ?case
    unfolding step upt count
    by (simp add: emit_def inc_retries_def replicate_app_Cons_same)
qed

end
